theory Spec2Isabelle
  imports Main "HOL-Library.Word" "HOL-Library.Char_ord" "HOL-Library.List_Lexorder"
begin

section \<open>The metalink plugin of tdnf: plugins/metalink/utils.c\<close>

text \<open>
  A shallow embedding of \<^verbatim>\<open>utils.c\<close>. Conventions:
  \<^item> a \<^verbatim>\<open>char *\<close> that the source tests against NULL is a \<open>string option\<close>: \<open>None\<close> is
    the NULL pointer, \<open>Some s\<close> holds the characters before the terminating NUL;
  \<^item> a \<^verbatim>\<open>uint32_t dwError\<close> is an \<open>error option\<close>: \<open>None\<close> is 0 (success);
  \<^item> a function that can fail returns \<open>error + 'a\<close> (\<open>Inl\<close> the error) or the \<open>dwError\<close>;
  \<^item> the heap, the file system and the digest engine are fields of a \<open>world\<close> that is
    passed explicitly; a function that allocates or opens a file returns the new world.
\<close>

subsection \<open>Status codes\<close>

text \<open>
  The status codes that \<^verbatim>\<open>utils.c\<close> uses. Their numeric values are declared in a header
  outside the file; all of them are nonzero. \<open>ERROR_TDNF_SYSTEM e\<close> is what the macros
  \<^verbatim>\<open>BAIL_ON_TDNF_SYSTEM_ERROR\<close> make of the \<^verbatim>\<open>errno\<close> value \<open>e\<close>.
\<close>

datatype error =
    ERROR_TDNF_INVALID_PARAMETER
  | ERROR_TDNF_OUT_OF_MEMORY
  | ERROR_TDNF_CHECKSUM_VALIDATION_FAILED
  | ERROR_TDNF_INVALID_REPO_FILE
  | ERROR_TDNF_FIPS_MODE_FORBIDDEN
  | ERROR_TDNF_METALINK_PARSER_MISSING_FILE_ATTR
  | ERROR_TDNF_METALINK_PARSER_INVALID_FILE_NAME
  | ERROR_TDNF_METALINK_PARSER_MISSING_FILE_SIZE
  | ERROR_TDNF_METALINK_PARSER_MISSING_HASH_ATTR
  | ERROR_TDNF_METALINK_PARSER_MISSING_HASH_CONTENT
  | ERROR_TDNF_METALINK_PARSER_MISSING_URL_ATTR
  | ERROR_TDNF_METALINK_PARSER_MISSING_URL_CONTENT
  | ERROR_TDNF_SYSTEM nat

type_synonym byte = "8 word"

subsection \<open>The C library, as far as the file uses it\<close>

text \<open>\<^verbatim>\<open>IsNullOrEmptyString(p)\<close>: \<open>p\<close> is NULL or points at the terminating NUL.\<close>

definition IsNullOrEmptyString :: "string option \<Rightarrow> bool" where
  "IsNullOrEmptyString p = (case p of None \<Rightarrow> True | Some s \<Rightarrow> s = [])"

text \<open>\<^verbatim>\<open>ctype.h\<close> on ASCII: decimal digits, hexadecimal digits, white space.\<close>

definition isdigit :: "char \<Rightarrow> bool" where
  "isdigit c = (48 \<le> (of_char c :: nat) \<and> (of_char c :: nat) \<le> 57)"

definition isxdigit :: "char \<Rightarrow> bool" where
  "isxdigit c =
     (48 \<le> (of_char c :: nat) \<and> (of_char c :: nat) \<le> 57 \<or>
      65 \<le> (of_char c :: nat) \<and> (of_char c :: nat) \<le> 70 \<or>
      97 \<le> (of_char c :: nat) \<and> (of_char c :: nat) \<le> 102)"

definition isspace :: "char \<Rightarrow> bool" where
  "isspace c = ((of_char c :: nat) = 32 \<or> 9 \<le> (of_char c :: nat) \<and> (of_char c :: nat) \<le> 13)"

text \<open>The value of a digit in the bases up to 16 (only applied to hexadecimal digits).\<close>

definition digit_value :: "char \<Rightarrow> nat" where
  "digit_value c =
     (if (of_char c :: nat) \<le> 57 then of_char c - 48
      else if (of_char c :: nat) \<le> 70 then of_char c - 55
      else of_char c - 87)"

text \<open>
  \<^verbatim>\<open>strtoul(s, NULL, 16)\<close> with \<^verbatim>\<open>errno\<close> cleared before the call, as a pair (value, errno):
  white space is skipped, a sign and a \<^verbatim>\<open>0x\<close> prefix are optional, the longest run of
  hexadecimal digits is converted; no digits give 0; a minus sign negates in
  \<^verbatim>\<open>unsigned long\<close> (64 bits); a value that does not fit gives \<^verbatim>\<open>ULONG_MAX\<close> and
  \<^verbatim>\<open>ERANGE\<close> (34).
\<close>

fun strip_sign :: "string \<Rightarrow> bool \<times> string" where
  "strip_sign [] = (False, [])"
| "strip_sign (c # cs) =
     (if c = CHR ''-'' then (True, cs) else if c = CHR ''+'' then (False, cs) else (False, c # cs))"

fun strip_0x :: "string \<Rightarrow> string" where
  "strip_0x (z # x # d # cs) =
     (if z = CHR ''0'' \<and> (x = CHR ''x'' \<or> x = CHR ''X'') \<and> isxdigit d then d # cs
      else z # x # d # cs)"
| "strip_0x cs = cs"

definition strtoul16 :: "string \<Rightarrow> nat \<times> nat" where
  "strtoul16 s =
     (let (neg, s1) = strip_sign (dropWhile isspace s);
          ds = takeWhile isxdigit (strip_0x s1);
          v = foldl (\<lambda>a c. 16 * a + digit_value c) 0 ds
      in if 2 ^ 64 \<le> v then (2 ^ 64 - 1, 34)
         else (if neg then (2 ^ 64 - v) mod 2 ^ 64 else v, 0))"

subsection \<open>The world outside the file\<close>

text \<open>
  \<^item> \<open>heap\<close>: the outcomes of the allocation requests to come, in order (\<open>True\<close>: the
    request is served); when the list is used up, every request is served.
  \<^item> \<open>opened\<close>: the paths passed to \<^verbatim>\<open>open\<close> so far, oldest first.
  \<^item> \<open>files\<close>: what \<^verbatim>\<open>open\<close> and then \<^verbatim>\<open>read\<close> do for a path: \<open>Inl e\<close> when
    \<^verbatim>\<open>open\<close> fails with \<^verbatim>\<open>errno\<close> \<open>e\<close>, else the chunks that the successive calls of
    \<^verbatim>\<open>read\<close> deliver and how the last call ends: \<open>None\<close> at the end of the file, \<open>Some e\<close>
    when it returns -1 with \<^verbatim>\<open>errno\<close> \<open>e\<close>.
  \<^item> the digest engine (OpenSSL EVP): an algorithm handle is a number, a digest context
    is a byte string; each operation can fail. \<open>fips_enabled\<close> is the compliance mode.
\<close>

type_synonym EVP_MD = nat
type_synonym EVP_MD_CTX = "byte list"

record world =
  heap :: "bool list"
  opened :: "string list"
  files :: "string \<Rightarrow> nat + (byte list list \<times> nat option)"
  EVP_get_digestbyname :: "string \<Rightarrow> EVP_MD option"
  EVP_MD_CTX_create :: bool
  EVP_DigestInit_ex :: "EVP_MD \<Rightarrow> EVP_MD_CTX option"
  EVP_DigestUpdate :: "EVP_MD_CTX \<Rightarrow> byte list \<Rightarrow> EVP_MD_CTX option"
  EVP_DigestFinal_ex :: "EVP_MD_CTX \<Rightarrow> byte list option"
  fips_enabled :: bool

text \<open>
  Modelled from the spec: \<^verbatim>\<open>TDNFAllocateMemory\<close> is declared outside \<^verbatim>\<open>utils.c\<close>; the
  spec takes memory allocation as a given primitive. A request is served (with zeroed
  memory) or fails; the caller turns a failure into \<open>ERROR_TDNF_OUT_OF_MEMORY\<close>.
\<close>

definition TDNFAllocateMemory :: "world \<Rightarrow> bool \<times> world" where
  "TDNFAllocateMemory w =
     (case heap w of [] \<Rightarrow> (True, w) | b # bs \<Rightarrow> (b, w\<lparr>heap := bs\<rparr>))"

subsection \<open>The hexadecimal codec\<close>

text \<open>
  \<^verbatim>\<open>TDNFCheckHexDigest\<close>, lines 275-296. \<open>hex_scan\<close> is the loop: \<open>None\<close> when it
  returns 0 at a character that is no hexadecimal digit, else the final value of the
  counter \<open>i\<close>. The result is the C truth value of the returned \<^verbatim>\<open>uint32_t\<close>.
  \<^verbatim>\<open>int\<close> is modelled unbounded: the counter and \<^verbatim>\<open>digest_length * 2\<close> stay inside
  \<^verbatim>\<open>int\<close> for strings shorter than \<open>2^31\<close> characters and lengths below \<open>2^30\<close>.
\<close>

fun hex_scan :: "string \<Rightarrow> int \<Rightarrow> int option" where
  "hex_scan [] i = Some i"
| "hex_scan (c # cs) i = (if \<not> isxdigit c then None else hex_scan cs (i + 1))"

definition TDNFCheckHexDigest :: "string option \<Rightarrow> int \<Rightarrow> bool" where
  "TDNFCheckHexDigest hex_digest digest_length =
     (if IsNullOrEmptyString hex_digest \<or> digest_length \<le> 0 then False
      else case hex_scan (case hex_digest of None \<Rightarrow> [] | Some s \<Rightarrow> s) 0 of
             None \<Rightarrow> False
           | Some i \<Rightarrow> digest_length * 2 = i)"

text \<open>
  \<^verbatim>\<open>TDNFHexToUint\<close>, lines 298-333: the two characters at \<open>hex_digest\<close> (one, when the
  string ends after it) are converted by \<^verbatim>\<open>strtoul\<close>; the low byte is the result. The
  output pointer is always the address of a local variable of the caller.
\<close>

definition TDNFHexToUint :: "string option \<Rightarrow> error + byte" where
  "TDNFHexToUint hex_digest =
     (case hex_digest of
        None \<Rightarrow> Inl ERROR_TDNF_INVALID_PARAMETER
      | Some s \<Rightarrow>
          if s = [] then Inl ERROR_TDNF_INVALID_PARAMETER
          else (case strtoul16 (take 2 s) of
                  (val, errno) \<Rightarrow>
                    if errno \<noteq> 0 then Inl (ERROR_TDNF_SYSTEM errno)
                    else Inr (word_of_nat (val mod 256))))"

text \<open>
  The loop of \<^verbatim>\<open>TDNFChecksumFromHexDigest\<close>, lines 360-366. The first argument is the
  string at \<^verbatim>\<open>hex_digest + i\<close>, the second is \<^verbatim>\<open>i >> 1\<close>, the third is \<^verbatim>\<open>pdigest\<close>, which
  holds \<^verbatim>\<open>len / 2\<close> bytes. For an odd \<^verbatim>\<open>len\<close> the last write, \<^verbatim>\<open>pdigest[len / 2]\<close>, lies
  one byte behind the allocation; the list update drops it.
\<close>

fun hex_loop :: "string \<Rightarrow> nat \<Rightarrow> byte list \<Rightarrow> error + byte list" where
  "hex_loop [] k pdigest = Inr pdigest"
| "hex_loop [c] k pdigest =
     (case TDNFHexToUint (Some [c]) of
        Inl e \<Rightarrow> Inl e
      | Inr uintValue \<Rightarrow> Inr (pdigest[k := uintValue]))"
| "hex_loop (c # d # cs) k pdigest =
     (case TDNFHexToUint (Some (c # d # cs)) of
        Inl e \<Rightarrow> Inl e
      | Inr uintValue \<Rightarrow> hex_loop cs (k + 1) (pdigest[k := uintValue]))"

text \<open>
  \<^verbatim>\<open>TDNFChecksumFromHexDigest\<close>, lines 335-375. \<open>ppdigest\<close> is the caller's buffer; the
  result is the buffer after the \<^verbatim>\<open>memcpy\<close> of \<^verbatim>\<open>len >> 1\<close> bytes to its start.
\<close>

definition TDNFChecksumFromHexDigest ::
    "string option \<Rightarrow> byte list option \<Rightarrow> world \<Rightarrow> (error + byte list) \<times> world" where
  "TDNFChecksumFromHexDigest hex_digest ppdigest w =
     (case (hex_digest, ppdigest) of
        (Some s, Some buf) \<Rightarrow>
          if s = [] then (Inl ERROR_TDNF_INVALID_PARAMETER, w)
          else (case TDNFAllocateMemory w of
                  (False, w1) \<Rightarrow> (Inl ERROR_TDNF_OUT_OF_MEMORY, w1)
                | (True, w1) \<Rightarrow>
                    (case hex_loop s 0 (replicate (length s div 2) 0) of
                       Inl e \<Rightarrow> (Inl e, w1)
                     | Inr pdigest \<Rightarrow>
                         (Inr (take (length s div 2) pdigest @ drop (length s div 2) buf), w1)))
      | _ \<Rightarrow> (Inl ERROR_TDNF_INVALID_PARAMETER, w))"

text \<open>
  Modelled from the spec: the file has no encoder; the spec's \<open>encode\<close> is the
  hexadecimal text of a byte sequence, two characters per byte, in lower or upper case
  (glossary, "Hex digest").
\<close>

definition hex_digit :: "bool \<Rightarrow> nat \<Rightarrow> char" where
  "hex_digit upper n = (if upper then ''0123456789ABCDEF'' ! n else ''0123456789abcdef'' ! n)"

fun hex_encode :: "bool \<Rightarrow> byte list \<Rightarrow> string" where
  "hex_encode upper [] = []"
| "hex_encode upper (b # bs) =
     hex_digit upper (unat b div 16) # hex_digit upper (unat b mod 16) # hex_encode upper bs"

subsection \<open>The hash registry\<close>

text \<open>
  Modelled from the spec: the enumeration \<^verbatim>\<open>TDNF_HASH_MD5 .. TDNF_HASH_SENTINEL\<close> and the
  OpenSSL digest lengths are declared in headers outside \<^verbatim>\<open>utils.c\<close>. The spec (section 3)
  gives the enumeration MD5, SHA1, SHA256, SHA512, whose ordinal is the strength rank,
  and the raw digest lengths 16, 20, 32 and 64 bytes; \<^verbatim>\<open>hash_ops\<close> has
  \<^verbatim>\<open>TDNF_HASH_SENTINEL\<close> entries, so the sentinel is 4.
\<close>

definition TDNF_HASH_MD5 :: int where "TDNF_HASH_MD5 = 0"
definition TDNF_HASH_SHA1 :: int where "TDNF_HASH_SHA1 = 1"
definition TDNF_HASH_SHA256 :: int where "TDNF_HASH_SHA256 = 2"
definition TDNF_HASH_SHA512 :: int where "TDNF_HASH_SHA512 = 3"
definition TDNF_HASH_SENTINEL :: int where "TDNF_HASH_SENTINEL = 4"

definition MD5_DIGEST_LENGTH :: nat where "MD5_DIGEST_LENGTH = 16"
definition SHA_DIGEST_LENGTH :: nat where "SHA_DIGEST_LENGTH = 20"
definition SHA256_DIGEST_LENGTH :: nat where "SHA256_DIGEST_LENGTH = 32"
definition SHA512_DIGEST_LENGTH :: nat where "SHA512_DIGEST_LENGTH = 64"
definition EVP_MAX_MD_SIZE :: nat where "EVP_MAX_MD_SIZE = 64"

text \<open>\<^verbatim>\<open>struct _hash_op\<close> and the table \<^verbatim>\<open>hash_ops\<close>, lines 30-41, indexed by the enumeration.\<close>

record hash_op =
  hash_type :: string
  length' :: nat

definition hash_ops :: "hash_op list" where
  "hash_ops =
     [\<lparr>hash_type = ''md5'', length' = MD5_DIGEST_LENGTH\<rparr>,
      \<lparr>hash_type = ''sha1'', length' = SHA_DIGEST_LENGTH\<rparr>,
      \<lparr>hash_type = ''sha256'', length' = SHA256_DIGEST_LENGTH\<rparr>,
      \<lparr>hash_type = ''sha512'', length' = SHA512_DIGEST_LENGTH\<rparr>]"

text \<open>The table \<^verbatim>\<open>hashType\<close>, lines 43-57: pairs of \<^verbatim>\<open>hash_name\<close> and \<^verbatim>\<open>hash_value\<close>.\<close>

definition hashType :: "(string \<times> int) list" where
  "hashType =
     [(''md5'', TDNF_HASH_MD5),
      (''sha1'', TDNF_HASH_SHA1),
      (''sha-1'', TDNF_HASH_SHA1),
      (''sha256'', TDNF_HASH_SHA256),
      (''sha-256'', TDNF_HASH_SHA256),
      (''sha512'', TDNF_HASH_SHA512),
      (''sha-512'', TDNF_HASH_SHA512)]"

text \<open>
  \<^verbatim>\<open>qsort\<close> and \<^verbatim>\<open>bsearch\<close> with \<^verbatim>\<open>hashTypeComparator\<close>, which is \<^verbatim>\<open>strcmp\<close> on the names:
  the order of strings as lists of character codes. The names of the table are
  pairwise distinct, so every sorting algorithm gives the same table. \<open>bsearch\<close> is
  the binary search between the indices \<open>lo\<close> (inclusive) and \<open>hi\<close> (exclusive).
\<close>

definition qsort :: "(string \<times> int) list \<Rightarrow> (string \<times> int) list" where
  "qsort base = sort_key fst base"

function bsearch :: "string \<Rightarrow> (string \<times> int) list \<Rightarrow> nat \<Rightarrow> nat \<Rightarrow> (string \<times> int) option" where
  "bsearch key base lo hi =
     (if lo < hi then
        (if key < fst (base ! ((lo + hi) div 2)) then bsearch key base lo ((lo + hi) div 2)
         else if fst (base ! ((lo + hi) div 2)) < key then bsearch key base ((lo + hi) div 2 + 1) hi
         else Some (base ! ((lo + hi) div 2)))
      else None)"
  by pat_completeness auto
termination
  by (relation "measure (\<lambda>(key, base, lo, hi). hi - lo)") auto

text \<open>
  \<^verbatim>\<open>TDNFGetResourceType\<close>, lines 74-118: \<open>Inl\<close> is the returned error, \<open>Inr t\<close> is the
  value stored in \<^verbatim>\<open>*type\<close> with the status 0. The output pointer is always the address
  of a local variable of the caller. The static flag \<^verbatim>\<open>sorted\<close> only saves sorting the
  table again; sorting a sorted table does not change it, so the model sorts at each
  call.
\<close>

definition TDNFGetResourceType :: "string option \<Rightarrow> error + int" where
  "TDNFGetResourceType resource_type =
     (case resource_type of
        None \<Rightarrow> Inl ERROR_TDNF_INVALID_PARAMETER
      | Some key \<Rightarrow>
          if key = [] then Inl ERROR_TDNF_INVALID_PARAMETER
          else (case bsearch key (qsort hashType) 0 (length hashType) of
                  None \<Rightarrow> Inr (- 1)
                | Some currHash \<Rightarrow> Inr (snd currHash)))"

subsection \<open>The digest of a file\<close>

text \<open>\<^verbatim>\<open>strcasecmp(a, b) == 0\<close> on ASCII.\<close>

definition tolower :: "char \<Rightarrow> char" where
  "tolower c =
     (if 65 \<le> (of_char c :: nat) \<and> (of_char c :: nat) \<le> 90 then char_of (of_char c + 32 :: nat)
      else c)"

definition strcasecmp_eq :: "string \<Rightarrow> string \<Rightarrow> bool" where
  "strcasecmp_eq a b = (map tolower a = map tolower b)"

text \<open>
  The \<^verbatim>\<open>read\<close> loop of \<^verbatim>\<open>TDNFGetDigestForFile\<close>, lines 184-194, over the chunks that
  \<^verbatim>\<open>read\<close> delivers; \<open>final\<close> is how the last call ends. An empty chunk is a \<^verbatim>\<open>read\<close> that
  returns 0. The result is the digest context and the final \<^verbatim>\<open>errno\<close> when \<^verbatim>\<open>read\<close>
  returned -1.
\<close>

fun read_loop ::
    "world \<Rightarrow> EVP_MD_CTX \<Rightarrow> byte list list \<Rightarrow> nat option \<Rightarrow> error + (EVP_MD_CTX \<times> nat option)" where
  "read_loop w ctx [] final = Inr (ctx, final)"
| "read_loop w ctx (buf # rest) final =
     (if buf = [] then Inr (ctx, None)
      else (case EVP_DigestUpdate w ctx buf of
              None \<Rightarrow> Inl ERROR_TDNF_CHECKSUM_VALIDATION_FAILED
            | Some ctx' \<Rightarrow> read_loop w ctx' rest final))"

text \<open>
  \<^verbatim>\<open>TDNFGetDigestForFile\<close>, lines 120-224. \<open>digest\<close> is the caller's buffer; the result is
  the buffer after \<^verbatim>\<open>EVP_DigestFinal_ex\<close> has written the digest at its start.
\<close>

definition TDNFGetDigestForFile ::
    "string option \<Rightarrow> hash_op option \<Rightarrow> byte list option \<Rightarrow> world \<Rightarrow> (error + byte list) \<times> world" where
  "TDNFGetDigestForFile filename hash digest w =
     (case (filename, hash, digest) of
        (Some f, Some h, Some d) \<Rightarrow>
          if f = [] then (Inl ERROR_TDNF_INVALID_PARAMETER, w)
          else
            (case files w f of
               Inl errno \<Rightarrow> (Inl (ERROR_TDNF_SYSTEM errno), w\<lparr>opened := opened w @ [f]\<rparr>)
             | Inr (chunks, final) \<Rightarrow>
                 (case EVP_get_digestbyname w (hash_type h) of
                    None \<Rightarrow> Inl ERROR_TDNF_INVALID_PARAMETER
                  | Some digest_type \<Rightarrow>
                      if \<not> EVP_MD_CTX_create w then Inl ERROR_TDNF_CHECKSUM_VALIDATION_FAILED
                      else
                        (case EVP_DigestInit_ex w digest_type of
                           None \<Rightarrow>
                             if fips_enabled w \<and> strcasecmp_eq (hash_type h) ''md5''
                             then Inl ERROR_TDNF_FIPS_MODE_FORBIDDEN
                             else Inl ERROR_TDNF_CHECKSUM_VALIDATION_FAILED
                         | Some ctx \<Rightarrow>
                             (case read_loop w ctx chunks final of
                                Inl e \<Rightarrow> Inl e
                              | Inr (ctx', None) \<Rightarrow>
                                  (case EVP_DigestFinal_ex w ctx' of
                                     None \<Rightarrow> Inl ERROR_TDNF_CHECKSUM_VALIDATION_FAILED
                                   | Some md \<Rightarrow> Inr (md @ drop (length md) d))
                              | Inr (ctx', Some errno) \<Rightarrow>
                                  if errno \<noteq> 0 then Inl (ERROR_TDNF_SYSTEM errno)
                                  else
                                    (case EVP_DigestFinal_ex w ctx' of
                                       None \<Rightarrow> Inl ERROR_TDNF_CHECKSUM_VALIDATION_FAILED
                                     | Some md \<Rightarrow> Inr (md @ drop (length md) d)))),
                  w\<lparr>opened := opened w @ [f]\<rparr>))
      | _ \<Rightarrow> (Inl ERROR_TDNF_INVALID_PARAMETER, w))"

text \<open>
  \<^verbatim>\<open>TDNFCheckHash\<close>, lines 226-270: \<^verbatim>\<open>memcmp\<close> compares the first \<^verbatim>\<open>hash->length\<close> bytes
  of the digest of the file with those of \<open>digest\<close>.
\<close>

definition TDNFCheckHash ::
    "string option \<Rightarrow> byte list option \<Rightarrow> int \<Rightarrow> world \<Rightarrow> error option \<times> world" where
  "TDNFCheckHash filename digest type w =
     (case digest of
        None \<Rightarrow> (Some ERROR_TDNF_INVALID_PARAMETER, w)
      | Some d \<Rightarrow>
          if IsNullOrEmptyString filename then (Some ERROR_TDNF_INVALID_PARAMETER, w)
          else if type < TDNF_HASH_MD5 \<or> TDNF_HASH_SENTINEL \<le> type
          then (Some ERROR_TDNF_INVALID_PARAMETER, w)
          else
            (case TDNFGetDigestForFile filename (Some (hash_ops ! nat type))
                    (Some (replicate EVP_MAX_MD_SIZE 0)) w of
               (Inl e, w1) \<Rightarrow> (Some e, w1)
             | (Inr digest_from_file, w1) \<Rightarrow>
                 if take (length' (hash_ops ! nat type)) digest_from_file
                    = take (length' (hash_ops ! nat type)) d
                 then (None, w1)
                 else (Some ERROR_TDNF_CHECKSUM_VALIDATION_FAILED, w1)))"

subsection \<open>The metalink model\<close>

text \<open>
  Modelled from the spec: the structures \<^verbatim>\<open>TDNF_ML_HASH_INFO\<close>, \<^verbatim>\<open>TDNF_ML_URL_INFO\<close> and
  \<^verbatim>\<open>TDNF_ML_CTX\<close> are declared in a header outside \<^verbatim>\<open>utils.c\<close>; the fields are those that
  the file reads and writes and that section 3 of the spec lists. A list node holds a
  pointer to its entry, which \<^verbatim>\<open>TDNFCheckRepoMDFileHashFromMetalink\<close> tests against
  NULL. The fields \<^verbatim>\<open>type\<close>, \<^verbatim>\<open>value\<close> and \<^verbatim>\<open>size\<close> carry a prime, and the \<^verbatim>\<open>type\<close> of a url
  is \<open>url_type\<close>.
\<close>

record TDNF_ML_HASH_INFO =
  type' :: "string option"
  value' :: "string option"

record TDNF_ML_URL_INFO =
  protocol :: "string option"
  url_type :: "string option"
  location :: "string option"
  preference :: int
  url :: "string option"

record TDNF_ML_CTX =
  filename :: "string option"
  size' :: int
  hashes :: "TDNF_ML_HASH_INFO option list"
  urls :: "TDNF_ML_URL_INFO option list"

subsection \<open>Verification of a file against the model\<close>

text \<open>
  The first loop of \<^verbatim>\<open>TDNFCheckRepoMDFileHashFromMetalink\<close>, lines 396-413: the best
  (highest) hash type of the list, starting from \<open>hash_Type\<close>.
\<close>

fun best_hash_loop :: "TDNF_ML_HASH_INFO option list \<Rightarrow> int \<Rightarrow> error + int" where
  "best_hash_loop [] hash_Type = Inr hash_Type"
| "best_hash_loop (currHashInfo # hashList) hash_Type =
     (case currHashInfo of
        None \<Rightarrow> Inl ERROR_TDNF_INVALID_REPO_FILE
      | Some info \<Rightarrow>
          (case TDNFGetResourceType (type' info) of
             Inl e \<Rightarrow> Inl e
           | Inr currHashType \<Rightarrow>
               best_hash_loop hashList
                 (if hash_Type < currHashType then currHashType else hash_Type)))"

text \<open>
  The second loop, lines 422-445. \<open>dwError\<close> and \<open>digest\<close> are the local variables of
  the function as they stand when the iteration starts; when the list is used up,
  the function returns \<open>dwError\<close> as the last iteration left it.
\<close>

fun check_loop ::
    "string option \<Rightarrow> int \<Rightarrow> TDNF_ML_HASH_INFO list \<Rightarrow> error option \<Rightarrow> byte list \<Rightarrow> world
     \<Rightarrow> error option \<times> world" where
  "check_loop pszFile hash_Type [] dwError digest w = (dwError, w)"
| "check_loop pszFile hash_Type (currHashInfo # hashList) dwError digest w =
     (case TDNFGetResourceType (type' currHashInfo) of
        Inl e \<Rightarrow> (Some e, w)
      | Inr currHashType \<Rightarrow>
          if hash_Type = currHashType \<and>
             TDNFCheckHexDigest (value' currHashInfo)
               (int (length' (hash_ops ! nat currHashType)))
          then
            (case TDNFChecksumFromHexDigest (value' currHashInfo) (Some digest) w of
               (Inl e, w1) \<Rightarrow> (Some e, w1)
             | (Inr digest1, w1) \<Rightarrow>
                 (case TDNFCheckHash pszFile (Some digest1) hash_Type w1 of
                    (None, w2) \<Rightarrow> (None, w2)
                  | (Some e, w2) \<Rightarrow>
                      if e = ERROR_TDNF_CHECKSUM_VALIDATION_FAILED
                      then check_loop pszFile hash_Type hashList (Some e) digest1 w2
                      else (Some e, w2)))
          else check_loop pszFile hash_Type hashList None digest w)"

text \<open>
  \<^verbatim>\<open>TDNFCheckRepoMDFileHashFromMetalink\<close>, lines 377-451. The first loop returns at a
  NULL entry, so the second loop, which does not test for one, only runs over lists
  where every entry is present.
\<close>

definition TDNFCheckRepoMDFileHashFromMetalink ::
    "string option \<Rightarrow> TDNF_ML_CTX option \<Rightarrow> world \<Rightarrow> error option \<times> world" where
  "TDNFCheckRepoMDFileHashFromMetalink pszFile ml_ctx w =
     (case ml_ctx of
        None \<Rightarrow> (Some ERROR_TDNF_INVALID_PARAMETER, w)
      | Some ctx \<Rightarrow>
          if IsNullOrEmptyString pszFile then (Some ERROR_TDNF_INVALID_PARAMETER, w)
          else
            (case best_hash_loop (hashes ctx) (- 1) of
               Inl e \<Rightarrow> (Some e, w)
             | Inr hash_Type \<Rightarrow>
                 if hash_Type < 0 then (Some ERROR_TDNF_INVALID_REPO_FILE, w)
                 else check_loop pszFile hash_Type (List.map_filter id (hashes ctx)) None
                        (replicate EVP_MAX_MD_SIZE 0) w))"

text \<open>
  What one pass through lines 435-438 yields for a declaration when it starts from a
  zeroed digest buffer: the status of \<^verbatim>\<open>TDNFCheckHash\<close> for the digest that
  \<^verbatim>\<open>TDNFChecksumFromHexDigest\<close> decodes, or the error of the decoder. \<open>None\<close> says that
  the declared digest matches the file, \<open>ERROR_TDNF_CHECKSUM_VALIDATION_FAILED\<close> that
  it does not.
\<close>

definition candidate_status ::
    "string option \<Rightarrow> int \<Rightarrow> TDNF_ML_HASH_INFO \<Rightarrow> world \<Rightarrow> error option" where
  "candidate_status pszFile hash_Type currHashInfo w =
     (case TDNFChecksumFromHexDigest (value' currHashInfo)
             (Some (replicate EVP_MAX_MD_SIZE 0)) w of
        (Inl e, w1) \<Rightarrow> Some e
      | (Inr digest, w1) \<Rightarrow> fst (TDNFCheckHash pszFile (Some digest) hash_Type w1))"

text \<open>
  The filter of lines 433-434 for the best type \<open>hash_Type\<close>: the type of the
  declaration resolves to it and the value is a well-formed digest of its length.
\<close>

definition best_candidate :: "int \<Rightarrow> TDNF_ML_HASH_INFO \<Rightarrow> bool" where
  "best_candidate hash_Type currHashInfo =
     (TDNFGetResourceType (type' currHashInfo) = Inr hash_Type \<and>
      TDNFCheckHexDigest (value' currHashInfo) (int (length' (hash_ops ! nat hash_Type))))"

subsection \<open>The parser\<close>

text \<open>
  Modelled from the spec: the tag names \<^verbatim>\<open>TAG_NAME_FILE\<close>, \<^verbatim>\<open>TAG_NAME_SIZE\<close>,
  \<^verbatim>\<open>TAG_NAME_HASH\<close> and \<^verbatim>\<open>TAG_NAME_URL\<close> are macros of a header outside \<^verbatim>\<open>utils.c\<close>; section
  6 of the spec names the elements \<open>file\<close>, \<open>size\<close>, \<open>hash\<close> and \<open>url\<close>. The other
  constants are those of lines 23-28.
\<close>

definition TAG_NAME_FILE :: string where "TAG_NAME_FILE = ''file''"
definition TAG_NAME_SIZE :: string where "TAG_NAME_SIZE = ''size''"
definition TAG_NAME_HASH :: string where "TAG_NAME_HASH = ''hash''"
definition TAG_NAME_URL :: string where "TAG_NAME_URL = ''url''"

definition MIN_URL_LENGTH :: int where "MIN_URL_LENGTH = 4"
definition ATTR_NAME :: string where "ATTR_NAME = ''name''"
definition ATTR_PROTOCOL :: string where "ATTR_PROTOCOL = ''protocol''"
definition ATTR_TYPE :: string where "ATTR_TYPE = ''type''"
definition ATTR_LOCATION :: string where "ATTR_LOCATION = ''location''"
definition ATTR_PREFERENCE :: string where "ATTR_PREFERENCE = ''preference''"

text \<open>
  \<^verbatim>\<open>sscanf(s, "%d", &x)\<close> and \<^verbatim>\<open>sscanf(s, "%ld", &x)\<close>. \<open>scan_int\<close> is what both
  read: white space is skipped, a sign is optional, the longest run of decimal digits
  is taken and what follows it is not read; \<open>None\<close> when no digit is there, and then
  the call does not return 1 (it returns 0, or \<^verbatim>\<open>EOF\<close> for an empty input). Otherwise
  the call returns 1 and stores the integer. C leaves the stored value undefined when
  the integer does not fit the variable; the C library of the platform converts the
  digits with \<^verbatim>\<open>strtol\<close>, which saturates at \<^verbatim>\<open>LONG_MIN\<close> and \<^verbatim>\<open>LONG_MAX\<close> (64 bits,
  \<open>strtol_sat\<close>), and \<^verbatim>\<open>%d\<close> stores the low 32 bits of that \<^verbatim>\<open>long\<close> as an \<^verbatim>\<open>int\<close>
  (\<open>int_of_long\<close>).
\<close>

definition scan_int :: "string \<Rightarrow> int option" where
  "scan_int s =
     (let (neg, s1) = strip_sign (dropWhile isspace s);
          ds = takeWhile isdigit s1;
          v = int (foldl (\<lambda>a c. 10 * a + digit_value c) 0 ds)
      in if ds = [] then None else Some (if neg then - v else v))"

definition strtol_sat :: "int \<Rightarrow> int" where
  "strtol_sat v = max (- (2 ^ 63)) (min (2 ^ 63 - 1) v)"

definition int_of_long :: "int \<Rightarrow> int" where
  "int_of_long v = (v + 2 ^ 31) mod 2 ^ 32 - 2 ^ 31"

definition sscanf_ld :: "string \<Rightarrow> int option" where
  "sscanf_ld s = map_option strtol_sat (scan_int s)"

definition sscanf_d :: "string \<Rightarrow> int option" where
  "sscanf_d s = map_option (\<lambda>v. int_of_long (strtol_sat v)) (scan_int s)"

text \<open>
  Modelled from the spec: \<^verbatim>\<open>TDNFAllocateString\<close>, \<^verbatim>\<open>TDNFAllocateStringN\<close> and
  \<^verbatim>\<open>TDNFAppendList\<close> are declared outside \<^verbatim>\<open>utils.c\<close>; the spec takes string allocation and
  the ordered-list primitives as given, with insertion order equal to document order.
  Each of them tests its pointer arguments and then makes one allocation request.
  \<^verbatim>\<open>TDNFAllocateStringN\<close> copies the first \<open>len\<close> characters; its callers ignore the
  status and test the pointer, which is NULL after a failure. \<open>len\<close> is the length of
  the character data and never negative.
\<close>

definition TDNFAllocateString :: "string option \<Rightarrow> world \<Rightarrow> (error + string) \<times> world" where
  "TDNFAllocateString pszSrc w =
     (case pszSrc of
        None \<Rightarrow> (Inl ERROR_TDNF_INVALID_PARAMETER, w)
      | Some s \<Rightarrow>
          (case TDNFAllocateMemory w of
             (False, w1) \<Rightarrow> (Inl ERROR_TDNF_OUT_OF_MEMORY, w1)
           | (True, w1) \<Rightarrow> (Inr s, w1)))"

definition TDNFAllocateStringN :: "string option \<Rightarrow> int \<Rightarrow> world \<Rightarrow> string option \<times> world" where
  "TDNFAllocateStringN pszSrc len w =
     (case pszSrc of
        None \<Rightarrow> (None, w)
      | Some s \<Rightarrow>
          (case TDNFAllocateMemory w of
             (False, w1) \<Rightarrow> (None, w1)
           | (True, w1) \<Rightarrow> (Some (take (nat len) s), w1)))"

definition TDNFAppendList :: "'a option list \<Rightarrow> 'a option \<Rightarrow> world \<Rightarrow> (error + 'a option list) \<times> world" where
  "TDNFAppendList head_ref new_data w =
     (case new_data of
        None \<Rightarrow> (Inl ERROR_TDNF_INVALID_PARAMETER, w)
      | Some d \<Rightarrow>
          (case TDNFAllocateMemory w of
             (False, w1) \<Rightarrow> (Inl ERROR_TDNF_OUT_OF_MEMORY, w1)
           | (True, w1) \<Rightarrow> (Inr (head_ref @ [Some d]), w1)))"

text \<open>
  \<^verbatim>\<open>struct MetalinkElementInfo\<close>, lines 64-72. \<open>attributes\<close> is the flat array of the
  tokenizer, as the list of its pairs of a name and a value up to the terminating NULL;
  \<^verbatim>\<open>TDNFSearchTag\<close> tests the value against NULL. The file name of the parse context is
  \<open>filename\<close>; that of the model is \<open>TDNF_ML_CTX.filename\<close>.
\<close>

record MetalinkElementInfo =
  dwError :: "error option"
  ml_ctx :: "TDNF_ML_CTX option"
  filename :: "string option"
  startElement :: "string option"
  endElement :: "string option"
  attributes :: "(string \<times> string option) list"

text \<open>\<^verbatim>\<open>TDNFSearchTag\<close>, lines 499-514.\<close>

fun TDNFSearchTag :: "(string \<times> string option) list \<Rightarrow> string \<Rightarrow> string option" where
  "TDNFSearchTag [] type = None"
| "TDNFSearchTag ((name, v) # attr) type =
     (case v of
        None \<Rightarrow> TDNFSearchTag attr type
      | Some s \<Rightarrow> if name = type then Some s else TDNFSearchTag attr type)"

text \<open>
  \<^verbatim>\<open>TDNFParseFileTag\<close>, lines 516-554. The handlers return the status, the parse context
  (whose model they change) and the world.
\<close>

definition TDNFParseFileTag ::
    "MetalinkElementInfo \<Rightarrow> world \<Rightarrow> error option \<times> MetalinkElementInfo \<times> world" where
  "TDNFParseFileTag elementInfo w =
     (case ml_ctx elementInfo of
        None \<Rightarrow> (Some ERROR_TDNF_INVALID_PARAMETER, elementInfo, w)
      | Some ctx \<Rightarrow>
          if IsNullOrEmptyString (filename elementInfo)
          then (Some ERROR_TDNF_INVALID_PARAMETER, elementInfo, w)
          else
            (case TDNFSearchTag (attributes elementInfo) ATTR_NAME of
               None \<Rightarrow> (Some ERROR_TDNF_METALINK_PARSER_MISSING_FILE_ATTR, elementInfo, w)
             | Some name \<Rightarrow>
                 if Some name = filename elementInfo then
                   (case TDNFAllocateString (Some name) w of
                      (Inl e, w1) \<Rightarrow> (Some e, elementInfo, w1)
                    | (Inr copy, w1) \<Rightarrow>
                        (None,
                         elementInfo\<lparr>ml_ctx := Some (ctx\<lparr>TDNF_ML_CTX.filename := Some copy\<rparr>)\<rparr>,
                         w1))
                 else (Some ERROR_TDNF_METALINK_PARSER_INVALID_FILE_NAME, elementInfo, w)))"

text \<open>\<^verbatim>\<open>TDNFParseHashTag\<close>, lines 556-622.\<close>

definition TDNFParseHashTag ::
    "MetalinkElementInfo \<Rightarrow> string option \<Rightarrow> int \<Rightarrow> world
     \<Rightarrow> error option \<times> MetalinkElementInfo \<times> world" where
  "TDNFParseHashTag elementInfo val len w =
     (case ml_ctx elementInfo of
        None \<Rightarrow> (Some ERROR_TDNF_INVALID_PARAMETER, elementInfo, w)
      | Some ctx \<Rightarrow>
          (case TDNFSearchTag (attributes elementInfo) ATTR_TYPE of
             None \<Rightarrow> (Some ERROR_TDNF_METALINK_PARSER_MISSING_HASH_ATTR, elementInfo, w)
           | Some type \<Rightarrow>
               (case TDNFAllocateMemory w of
                  (False, w1) \<Rightarrow> (Some ERROR_TDNF_OUT_OF_MEMORY, elementInfo, w1)
                | (True, w1) \<Rightarrow>
                    (case TDNFAllocateString (Some type) w1 of
                       (Inl e, w2) \<Rightarrow> (Some e, elementInfo, w2)
                     | (Inr type_copy, w2) \<Rightarrow>
                         (case TDNFAllocateStringN val len w2 of
                            (None, w3) \<Rightarrow>
                              (Some ERROR_TDNF_METALINK_PARSER_MISSING_HASH_CONTENT, elementInfo, w3)
                          | (Some v, w3) \<Rightarrow>
                              (case TDNFAllocateString (Some v) w3 of
                                 (Inl e, w4) \<Rightarrow> (Some e, elementInfo, w4)
                               | (Inr value_copy, w4) \<Rightarrow>
                                   (case TDNFAppendList (hashes ctx)
                                           (Some \<lparr>type' = Some type_copy, value' = Some value_copy\<rparr>)
                                           w4 of
                                      (Inl e, w5) \<Rightarrow> (Some e, elementInfo, w5)
                                    | (Inr hs, w5) \<Rightarrow>
                                        (None,
                                         elementInfo\<lparr>ml_ctx := Some (ctx\<lparr>hashes := hs\<rparr>)\<rparr>,
                                         w5))))))))"

text \<open>
  The error exit of \<^verbatim>\<open>TDNFParseUrlTag\<close> out of its attribute loop, lines 709-722: the
  cleanup frees \<^verbatim>\<open>value\<close> when it is not NULL. Inside the loop a \<^verbatim>\<open>value\<close> that is not
  NULL points at attribute text of the tokenizer (lines 652, 658, 664), which the
  function does not own: freeing it is undefined and the C library aborts the process.
  \<open>None\<close> stands for that; with a NULL \<^verbatim>\<open>value\<close> the function returns the error.
\<close>

definition url_bail ::
    "error \<Rightarrow> string option \<Rightarrow> world \<Rightarrow> ((error + TDNF_ML_URL_INFO) \<times> world) option" where
  "url_bail e value w = (case value of None \<Rightarrow> Some (Inl e, w) | Some s \<Rightarrow> None)"

text \<open>
  The attribute loop of \<^verbatim>\<open>TDNFParseUrlTag\<close>, lines 648-690, over the pairs of the
  attribute array; \<open>value\<close> is the local variable \<^verbatim>\<open>value\<close> as the iteration finds it.
  The four tests of an iteration compare the name with four different constants, so
  at most one of them holds.
\<close>

fun url_attr_loop ::
    "(string \<times> string option) list \<Rightarrow> TDNF_ML_URL_INFO \<Rightarrow> string option \<Rightarrow> world
     \<Rightarrow> ((error + TDNF_ML_URL_INFO) \<times> world) option" where
  "url_attr_loop [] ml_url_info value w = Some (Inr ml_url_info, w)"
| "url_attr_loop ((name, v) # attr) ml_url_info value w =
     (case v of
        None \<Rightarrow> url_attr_loop attr ml_url_info value w
      | Some s \<Rightarrow>
          if name = ATTR_PROTOCOL then
            (case TDNFAllocateString (Some s) w of
               (Inl e, w1) \<Rightarrow> url_bail e (Some s) w1
             | (Inr copy, w1) \<Rightarrow>
                 url_attr_loop attr (ml_url_info\<lparr>protocol := Some copy\<rparr>) (Some s) w1)
          else if name = ATTR_TYPE then
            (case TDNFAllocateString (Some s) w of
               (Inl e, w1) \<Rightarrow> url_bail e (Some s) w1
             | (Inr copy, w1) \<Rightarrow>
                 url_attr_loop attr (ml_url_info\<lparr>url_type := Some copy\<rparr>) (Some s) w1)
          else if name = ATTR_LOCATION then
            (case TDNFAllocateString (Some s) w of
               (Inl e, w1) \<Rightarrow> url_bail e (Some s) w1
             | (Inr copy, w1) \<Rightarrow>
                 url_attr_loop attr (ml_url_info\<lparr>location := Some copy\<rparr>) (Some s) w1)
          else if name = ATTR_PREFERENCE then
            (case sscanf_d s of
               None \<Rightarrow> url_bail ERROR_TDNF_INVALID_PARAMETER value w
             | Some prefValue \<Rightarrow>
                 if prefValue < 0 \<or> 100 < prefValue
                 then url_bail ERROR_TDNF_METALINK_PARSER_MISSING_URL_ATTR value w
                 else url_attr_loop attr (ml_url_info\<lparr>preference := prefValue\<rparr>) value w)
          else url_attr_loop attr ml_url_info value w)"

text \<open>
  \<^verbatim>\<open>TDNFParseUrlTag\<close>, lines 624-722. The allocated \<^verbatim>\<open>TDNF_ML_URL_INFO\<close> is zeroed and
  \<^verbatim>\<open>value\<close> starts as NULL. After the loop \<^verbatim>\<open>value\<close> is the copy of the content (or NULL),
  which the cleanup may free. The result is \<open>None\<close> where the loop ends in the free of
  attribute text.
\<close>

definition TDNFParseUrlTag ::
    "MetalinkElementInfo \<Rightarrow> string option \<Rightarrow> int \<Rightarrow> world
     \<Rightarrow> (error option \<times> MetalinkElementInfo \<times> world) option" where
  "TDNFParseUrlTag elementInfo val len w =
     (case ml_ctx elementInfo of
        None \<Rightarrow> Some (Some ERROR_TDNF_INVALID_PARAMETER, elementInfo, w)
      | Some ctx \<Rightarrow>
          (case TDNFAllocateMemory w of
             (False, w1) \<Rightarrow> Some (Some ERROR_TDNF_OUT_OF_MEMORY, elementInfo, w1)
           | (True, w1) \<Rightarrow>
               (case url_attr_loop (attributes elementInfo)
                       \<lparr>protocol = None, url_type = None, location = None, preference = 0,
                        url = None\<rparr> None w1 of
                  None \<Rightarrow> None
                | Some (Inl e, w2) \<Rightarrow> Some (Some e, elementInfo, w2)
                | Some (Inr ml_url_info, w2) \<Rightarrow>
                    (case TDNFAllocateStringN val len w2 of
                       (None, w3) \<Rightarrow>
                         Some (Some ERROR_TDNF_METALINK_PARSER_MISSING_URL_CONTENT, elementInfo, w3)
                     | (Some v, w3) \<Rightarrow>
                         (case TDNFAllocateString (Some v) w3 of
                            (Inl e, w4) \<Rightarrow> Some (Some e, elementInfo, w4)
                          | (Inr url_copy, w4) \<Rightarrow>
                              (case TDNFAppendList (urls ctx)
                                      (Some (ml_url_info\<lparr>url := Some url_copy\<rparr>)) w4 of
                                 (Inl e, w5) \<Rightarrow> Some (Some e, elementInfo, w5)
                               | (Inr us, w5) \<Rightarrow>
                                   Some (None, elementInfo\<lparr>ml_ctx := Some (ctx\<lparr>urls := us\<rparr>)\<rparr>,
                                         w5)))))))"

text \<open>\<^verbatim>\<open>TDNFXmlParseStartElement\<close>, lines 724-746.\<close>

definition TDNFXmlParseStartElement ::
    "MetalinkElementInfo \<Rightarrow> string \<Rightarrow> (string \<times> string option) list \<Rightarrow> MetalinkElementInfo" where
  "TDNFXmlParseStartElement elementInfo name attrs =
     (case dwError elementInfo of
        Some e \<Rightarrow> elementInfo
      | None \<Rightarrow> elementInfo\<lparr>startElement := Some name, attributes := attrs\<rparr>)"

text \<open>
  \<^verbatim>\<open>TDNFXmlParseData\<close>, lines 748-805. The result is \<open>None\<close> where the source has no
  defined behaviour: where it passes a NULL \<^verbatim>\<open>startElement\<close> to \<^verbatim>\<open>strcmp\<close> (character
  data before any start tag, which the tokenizer never delivers), and where
  \<^verbatim>\<open>TDNFParseUrlTag\<close> frees attribute text.
\<close>

definition TDNFXmlParseData ::
    "MetalinkElementInfo \<Rightarrow> string option \<Rightarrow> int \<Rightarrow> world \<Rightarrow> (MetalinkElementInfo \<times> world) option" where
  "TDNFXmlParseData elementInfo val len w =
     (case (ml_ctx elementInfo, dwError elementInfo) of
        (Some ctx, None) \<Rightarrow>
          if IsNullOrEmptyString (filename elementInfo)
          then Some (elementInfo\<lparr>dwError := Some ERROR_TDNF_INVALID_PARAMETER\<rparr>, w)
          else
            (case startElement elementInfo of
               None \<Rightarrow> None
             | Some tag \<Rightarrow>
                 if tag = TAG_NAME_FILE then
                   (case TDNFParseFileTag elementInfo w of
                      (e, elementInfo1, w1) \<Rightarrow> Some (elementInfo1\<lparr>dwError := e\<rparr>, w1))
                 else if tag = TAG_NAME_SIZE then
                   (case TDNFAllocateStringN val len w of
                      (None, w1) \<Rightarrow>
                        Some (elementInfo
                                \<lparr>dwError := Some ERROR_TDNF_METALINK_PARSER_MISSING_FILE_SIZE\<rparr>, w1)
                    | (Some size_text, w1) \<Rightarrow>
                        (case sscanf_ld size_text of
                           None \<Rightarrow>
                             Some (elementInfo\<lparr>dwError := Some ERROR_TDNF_INVALID_PARAMETER\<rparr>, w1)
                         | Some n \<Rightarrow>
                             Some (elementInfo\<lparr>ml_ctx := Some (ctx\<lparr>size' := n\<rparr>)\<rparr>, w1)))
                 else if tag = TAG_NAME_HASH then
                   (case TDNFParseHashTag elementInfo val len w of
                      (e, elementInfo1, w1) \<Rightarrow> Some (elementInfo1\<lparr>dwError := e\<rparr>, w1))
                 else if tag = TAG_NAME_URL \<and> MIN_URL_LENGTH < len then
                   (case TDNFParseUrlTag elementInfo val len w of
                      None \<Rightarrow> None
                    | Some (e, elementInfo1, w1) \<Rightarrow> Some (elementInfo1\<lparr>dwError := e\<rparr>, w1))
                 else Some (elementInfo, w))
      | _ \<Rightarrow> Some (elementInfo\<lparr>dwError := Some ERROR_TDNF_INVALID_PARAMETER\<rparr>, w))"

text \<open>\<^verbatim>\<open>TDNFXmlParseEndElement\<close>, lines 807-823.\<close>

definition TDNFXmlParseEndElement :: "MetalinkElementInfo \<Rightarrow> string \<Rightarrow> MetalinkElementInfo" where
  "TDNFXmlParseEndElement elementInfo name = elementInfo\<lparr>endElement := Some name\<rparr>"

text \<open>
  The events that the tokenizer delivers to the three handlers, and the handlers run
  over a sequence of events from a parse context and a world.
\<close>

datatype xml_event =
    StartElement string "(string \<times> string option) list"
  | CharacterData "string option" int
  | EndElement string

fun handle_event ::
    "xml_event \<Rightarrow> MetalinkElementInfo \<times> world \<Rightarrow> (MetalinkElementInfo \<times> world) option" where
  "handle_event (StartElement name attrs) (elementInfo, w) =
     Some (TDNFXmlParseStartElement elementInfo name attrs, w)"
| "handle_event (CharacterData val len) (elementInfo, w) = TDNFXmlParseData elementInfo val len w"
| "handle_event (EndElement name) (elementInfo, w) =
     Some (TDNFXmlParseEndElement elementInfo name, w)"

fun handle_events ::
    "xml_event list \<Rightarrow> MetalinkElementInfo \<times> world \<Rightarrow> (MetalinkElementInfo \<times> world) option" where
  "handle_events [] s = Some s"
| "handle_events (ev # evs) s =
     (case handle_event ev s of None \<Rightarrow> None | Some s1 \<Rightarrow> handle_events evs s1)"

text \<open>
  The end of \<^verbatim>\<open>TDNFMetalinkParseFile\<close>, lines 874-881: \<open>xml_status\<close> is the value that
  \<^verbatim>\<open>XML_Parse\<close> returned and \<open>elementInfo\<close> is the parse context that the handlers left.
  The function returns a nonzero \<open>xml_status\<close> as it is (\<open>Inl\<close>), else the error of
  the parse context (\<open>Inr\<close>).
\<close>

definition parse_status :: "nat \<Rightarrow> MetalinkElementInfo \<Rightarrow> nat + error option" where
  "parse_status xml_status elementInfo =
     (if xml_status = 0 then Inr (dwError elementInfo) else Inl xml_status)"

subsection \<open>A world for the examples\<close>

text \<open>
  Memory is unlimited and nothing has been opened. The only file, \<open>repomd.xml\<close>, holds
  the bytes \<open>0x30\<close> and \<open>0x31\<close>, which \<^verbatim>\<open>read\<close> delivers one at a time; their sum is
  \<open>0x61\<close>. The handle of an algorithm of the toy digest engine is the length of
  its digest; a context is that length followed by the data fed so far; the digest
  is the sum of the data, repeated to the length.
\<close>

definition toy_final :: "EVP_MD_CTX \<Rightarrow> byte list option" where
  "toy_final ctx = (case ctx of [] \<Rightarrow> None | n # data \<Rightarrow> Some (replicate (unat n) (sum_list data)))"

definition example_world :: world where
  "example_world =
     \<lparr>heap = [], opened = [],
      files = (\<lambda>path. if path = ''repomd.xml'' then Inr ([[0x30], [0x31]], None) else Inl 2),
      EVP_get_digestbyname = map_of [(''md5'', 16), (''sha1'', 20), (''sha256'', 32), (''sha512'', 64)],
      EVP_MD_CTX_create = True,
      EVP_DigestInit_ex = (\<lambda>md. Some [word_of_nat md]),
      EVP_DigestUpdate = (\<lambda>ctx buf. Some (ctx @ buf)),
      EVP_DigestFinal_ex = toy_final,
      fips_enabled = False\<rparr>"

text \<open>
  Example models of the file \<open>repomd.xml\<close>. In the example world its digest is the
  byte \<open>0x61\<close> repeated: 20 times for \<open>sha1\<close>, 32 times for \<open>sha256\<close>.
\<close>

definition model_of :: "TDNF_ML_HASH_INFO list \<Rightarrow> TDNF_ML_CTX" where
  "model_of hs =
     \<lparr>TDNF_ML_CTX.filename = Some ''repomd.xml'', size' = 1, hashes = map Some hs, urls = []\<rparr>"

definition sha1_good :: TDNF_ML_HASH_INFO where
  "sha1_good =
     \<lparr>type' = Some ''sha1'', value' = Some ''6161616161616161616161616161616161616161''\<rparr>"

definition sha256_malformed :: TDNF_ML_HASH_INFO where
  "sha256_malformed = \<lparr>type' = Some ''sha256'', value' = Some ''61zz''\<rparr>"

definition sha256_good :: TDNF_ML_HASH_INFO where
  "sha256_good =
     \<lparr>type' = Some ''sha-256'',
      value' = Some ''6161616161616161616161616161616161616161616161616161616161616161''\<rparr>"

definition sha256_bad :: TDNF_ML_HASH_INFO where
  "sha256_bad =
     \<lparr>type' = Some ''sha256'',
      value' = Some ''0000000000000000000000000000000000000000000000000000000000000000''\<rparr>"

text \<open>
  Example parse contexts for the file \<open>repomd.xml\<close>: the context as
  \<^verbatim>\<open>TDNFMetalinkParseFile\<close> sets it up, with an empty model, and the context inside an
  element with given attributes.
\<close>

definition empty_model :: TDNF_ML_CTX where
  "empty_model = \<lparr>TDNF_ML_CTX.filename = None, size' = 0, hashes = [], urls = []\<rparr>"

definition initial_info :: MetalinkElementInfo where
  "initial_info =
     \<lparr>dwError = None, ml_ctx = Some empty_model, filename = Some ''repomd.xml'',
      startElement = None, endElement = None, attributes = []\<rparr>"

definition element_info :: "string \<Rightarrow> (string \<times> string option) list \<Rightarrow> MetalinkElementInfo" where
  "element_info tag attrs = initial_info\<lparr>startElement := Some tag, attributes := attrs\<rparr>"

section \<open>Properties\<close>

subsection \<open>The hexadecimal codec\<close>

lemma hex_scan_eq:
  "hex_scan s i = (if \<forall>c \<in> set s. isxdigit c then Some (i + int (length s)) else None)"
  by (induction s arbitrary: i) auto

text \<open>
  C5. For every text and every positive byte length \<open>n\<close>, \<open>TDNFCheckHexDigest\<close> accepts
  the text if and only if each of its characters is a hexadecimal digit and it has
  exactly \<open>2 * n\<close> characters.
\<close>

theorem TDNFCheckHexDigest_iff:
  "0 < n \<Longrightarrow>
   TDNFCheckHexDigest (Some text) n = ((\<forall>c \<in> set text. isxdigit c) \<and> int (length text) = 2 * n)"
  by (auto simp: TDNFCheckHexDigest_def IsNullOrEmptyString_def hex_scan_eq)

theorem TDNFCheckHexDigest_iff_witness:
  "(0::int) < 2 \<and> TDNFCheckHexDigest (Some ''0aF9'') 2 \<and> \<not> TDNFCheckHexDigest (Some ''0aF'') 2
   \<and> \<not> TDNFCheckHexDigest (Some ''0aFg'') 2 \<and> \<not> TDNFCheckHexDigest (Some ''0aF9'') 3"
  using TDNFCheckHexDigest_iff [of 2 "''0aF9''"] TDNFCheckHexDigest_iff [of 2 "''0aF''"]
    TDNFCheckHexDigest_iff [of 2 "''0aFg''"] TDNFCheckHexDigest_iff [of 3 "''0aF9''"]
  by (simp add: isxdigit_def)

lemma nibble_cases:
  "n < 16 \<Longrightarrow> n \<in> {0, 1, 2, 3, 4, 5, 6, 7, 8, 9, 10, 11, 12, 13, 14, 15::nat}"
  by simp arith

lemma hex_digit_props:
  assumes "n < 16"
  shows "isxdigit (hex_digit up n)" and "digit_value (hex_digit up n) = n"
    and "\<not> isspace (hex_digit up n)" and "hex_digit up n \<noteq> CHR ''-''"
    and "hex_digit up n \<noteq> CHR ''+''"
proof -
  from nibble_cases [OF assms]
  have "isxdigit (hex_digit up n) \<and> digit_value (hex_digit up n) = n
    \<and> \<not> isspace (hex_digit up n) \<and> hex_digit up n \<noteq> CHR ''-'' \<and> hex_digit up n \<noteq> CHR ''+''"
    unfolding insert_iff empty_iff
    by (elim disjE FalseE)
       (simp_all add: hex_digit_def isxdigit_def digit_value_def isspace_def)
  then show "isxdigit (hex_digit up n)" and "digit_value (hex_digit up n) = n"
    and "\<not> isspace (hex_digit up n)" and "hex_digit up n \<noteq> CHR ''-''"
    and "hex_digit up n \<noteq> CHR ''+''"
    by simp_all
qed

lemma strtoul16_pair:
  assumes "a < 16" "b < 16"
  shows "strtoul16 [hex_digit up a, hex_digit up b] = (16 * a + b, 0)"
proof -
  have "16 * a + b < 2 ^ 64" using assms by simp
  then show ?thesis
    using assms by (simp add: strtoul16_def hex_digit_props)
qed

lemma TDNFHexToUint_encoded:
  "TDNFHexToUint (Some (hex_digit up (unat b div 16) # hex_digit up (unat b mod 16) # cs)) = Inr b"
proof -
  have "unat b < 256" using unsigned_less [of b, where ?'a = nat] by simp
  then have a: "unat b div 16 < 16" by simp
  have m: "unat b mod 16 < 16" by simp
  have v: "16 * (unat b div 16) + unat b mod 16 = unat b" by simp
  show ?thesis
    using \<open>unat b < 256\<close> by (simp add: TDNFHexToUint_def strtoul16_pair [OF a m] v)
qed

lemma length_hex_encode: "length (hex_encode up bs) = 2 * length bs"
  by (induction bs) auto

lemma hex_loop_encoded:
  "k + length bs \<le> length pd \<Longrightarrow>
   hex_loop (hex_encode up bs) k pd = Inr (take k pd @ bs @ drop (k + length bs) pd)"
proof (induction bs arbitrary: k pd)
  case Nil
  then show ?case by simp
next
  case (Cons b bs)
  have "take (Suc k) (pd[k := b]) = take k pd @ [b]"
    using Cons.prems by (simp add: take_Suc_conv_app_nth)
  then show ?case
    using Cons.prems Cons.IH [of "Suc k" "pd[k := b]"]
    by (simp add: TDNFHexToUint_encoded)
qed

lemma decode_hex_encode:
  assumes "bs \<noteq> []" and "fst (TDNFAllocateMemory w)"
  shows "fst (TDNFChecksumFromHexDigest (Some (hex_encode up bs)) (Some buf) w)
         = Inr (bs @ drop (length bs) buf)"
proof -
  have ne: "hex_encode up bs \<noteq> []" using assms(1) by (cases bs) auto
  obtain w1 where a: "TDNFAllocateMemory w = (True, w1)"
    using assms(2) by (cases "TDNFAllocateMemory w") auto
  show ?thesis
    using ne by (simp add: TDNFChecksumFromHexDigest_def a length_hex_encode hex_loop_encoded)
qed

text \<open>
  C6. For every byte sequence of 16, 20, 32 or 64 bytes, \<open>TDNFChecksumFromHexDigest\<close>
  applied to its hexadecimal text (in lower or in upper case) writes the sequence
  back at the start of the caller's buffer and leaves the rest of the buffer as it
  was, provided the buffer has room and the allocation request is served.
\<close>

theorem TDNFChecksumFromHexDigest_hex_encode:
  assumes "length bs \<in> {16, 20, 32, 64}" and "length bs \<le> length buf"
    and "fst (TDNFAllocateMemory w)"
  shows "fst (TDNFChecksumFromHexDigest (Some (hex_encode upper bs)) (Some buf) w)
         = Inr (bs @ drop (length bs) buf)"
proof -
  have "bs \<noteq> []" using assms(1) by auto
  then show ?thesis using decode_hex_encode [OF _ assms(3)] by simp
qed

theorem TDNFChecksumFromHexDigest_hex_encode_witness:
  "hex_encode False [0x00, 0x01, 0x7f, 0x80, 0xab, 0xcd, 0xef, 0xff, 0x10, 0x20, 0x30, 0x40, 0x50,
     0x60, 0x70, 0x9a] = ''00017f80abcdefff102030405060709a''
   \<and> fst (TDNFAllocateMemory example_world)
   \<and> fst (TDNFChecksumFromHexDigest (Some ''00017f80abcdefff102030405060709a'')
            (Some (replicate 16 0)) example_world)
     = Inr [0x00, 0x01, 0x7f, 0x80, 0xab, 0xcd, 0xef, 0xff, 0x10, 0x20, 0x30, 0x40, 0x50,
            0x60, 0x70, 0x9a]"
proof -
  have e: "hex_encode False [0x00, 0x01, 0x7f, 0x80, 0xab, 0xcd, 0xef, 0xff, 0x10, 0x20, 0x30, 0x40,
     0x50, 0x60, 0x70, 0x9a] = ''00017f80abcdefff102030405060709a''"
    by (simp add: hex_digit_def)
  have a: "fst (TDNFAllocateMemory example_world)"
    by (simp add: TDNFAllocateMemory_def example_world_def)
  show ?thesis
    using TDNFChecksumFromHexDigest_hex_encode [of "[0x00, 0x01, 0x7f, 0x80, 0xab, 0xcd, 0xef, 0xff,
       0x10, 0x20, 0x30, 0x40, 0x50, 0x60, 0x70, 0x9a]" "replicate 16 0" example_world False] e a
    by simp
qed

text \<open>
  Every well-formed hexadecimal text decodes, and the bytes that it decodes to have that
  text, in lower case, as their encoding.
\<close>

lemma of_char_hex_digit:
  "n < 16 \<Longrightarrow> (of_char (hex_digit False n) :: nat) = (if n < 10 then 48 + n else 87 + n)"
proof -
  assume "n < 16"
  from nibble_cases [OF this] show ?thesis
    unfolding insert_iff empty_iff
    by (elim disjE FalseE) (simp_all add: hex_digit_def)
qed

lemma of_char_tolower:
  "(of_char (tolower c) :: nat)
   = (if 65 \<le> (of_char c :: nat) \<and> (of_char c :: nat) \<le> 90 then of_char c + 32 else of_char c)"
  by (simp add: tolower_def)

lemma isxdigit_props:
  assumes "isxdigit c"
  shows "\<not> isspace c" and "c \<noteq> CHR ''-''" and "c \<noteq> CHR ''+''" and "digit_value c < 16"
    and "hex_digit False (digit_value c) = tolower c"
proof -
  show "\<not> isspace c" using assms by (auto simp: isxdigit_def isspace_def)
  show "c \<noteq> CHR ''-''" using assms by (auto simp: isxdigit_def)
  show "c \<noteq> CHR ''+''" using assms by (auto simp: isxdigit_def)
  show d: "digit_value c < 16" using assms by (auto simp: isxdigit_def digit_value_def)
  have "(of_char (hex_digit False (digit_value c)) :: nat) = of_char (tolower c)"
    unfolding of_char_hex_digit [OF d] of_char_tolower
    using assms by (auto simp: isxdigit_def digit_value_def)
  then have "char_of (of_char (hex_digit False (digit_value c)) :: nat)
             = char_of (of_char (tolower c) :: nat)"
    by simp
  then show "hex_digit False (digit_value c) = tolower c"
    by (simp only: char_of_char)
qed

lemma TDNFHexToUint_pair:
  assumes "isxdigit c" and "isxdigit d"
  shows "TDNFHexToUint (Some (c # d # cs)) = Inr (word_of_nat (16 * digit_value c + digit_value d))"
proof -
  have v: "16 * digit_value c + digit_value d < 256"
    using isxdigit_props(4) [OF assms(1)] isxdigit_props(4) [OF assms(2)] by simp
  then have "16 * digit_value c + digit_value d < 2 ^ 64" by simp
  then have "strtoul16 [c, d] = (16 * digit_value c + digit_value d, 0)"
    using assms isxdigit_props(1-3) [OF assms(1)]
    by (simp add: strtoul16_def)
  with v show ?thesis by (simp add: TDNFHexToUint_def)
qed

lemma hex_loop_valid:
  assumes "\<forall>c \<in> set v. isxdigit c" and "length v = 2 * n" and "k + n \<le> length pd"
  shows "\<exists>bs. length bs = n \<and> hex_loop v k pd = Inr (take k pd @ bs @ drop (k + n) pd)
           \<and> hex_encode False bs = map tolower v"
  using assms
proof (induction n arbitrary: v k pd)
  case 0
  then have "v = []" by simp
  then have "length ([]::byte list) = 0 \<and> hex_loop v k pd = Inr (take k pd @ [] @ drop (k + 0) pd)
           \<and> hex_encode False [] = map tolower v"
    by simp
  then show ?case by blast
next
  case (Suc n)
  from Suc.prems(2) obtain c r where "v = c # r" by (cases v) auto
  moreover from this Suc.prems(2) obtain d v' where "r = d # v'" by (cases r) auto
  ultimately have v: "v = c # d # v'" by simp
  define b :: byte where "b = word_of_nat (16 * digit_value c + digit_value d)"
  from Suc.prems(1) have cd: "isxdigit c" "isxdigit d" and v': "\<forall>c \<in> set v'. isxdigit c"
    by (simp_all add: v)
  have dv: "digit_value c < 16" "digit_value d < 16"
    using isxdigit_props(4) cd by simp_all
  then have lt: "16 * digit_value c + digit_value d < 256" by simp
  have "unat b = (16 * digit_value c + digit_value d) mod 2 ^ LENGTH(8)"
    unfolding b_def by (simp only: unat_of_nat)
  with lt have u: "unat b = 16 * digit_value c + digit_value d" by simp
  have "unat b div 16 = digit_value c" "unat b mod 16 = digit_value d"
    using dv by (simp_all add: u)
  then have enc: "hex_digit False (unat b div 16) = tolower c"
    "hex_digit False (unat b mod 16) = tolower d"
    using isxdigit_props(5) cd by simp_all
  have first: "TDNFHexToUint (Some (c # d # v')) = Inr b"
    unfolding b_def by (rule TDNFHexToUint_pair [OF cd])
  from Suc.IH [of v' "Suc k" "pd[k := b]"] v' Suc.prems(2,3)
  obtain bs where bs: "length bs = n"
    "hex_loop v' (Suc k) (pd[k := b])
     = Inr (take (Suc k) (pd[k := b]) @ bs @ drop (Suc k + n) (pd[k := b]))"
    "hex_encode False bs = map tolower v'"
    by (auto simp: v)
  have t: "take (Suc k) (pd[k := b]) = take k pd @ [b]"
    using Suc.prems(3) by (simp add: take_Suc_conv_app_nth)
  have "hex_loop v k pd = hex_loop v' (Suc k) (pd[k := b])"
    by (simp add: v first)
  also have "\<dots> = Inr (take k pd @ (b # bs) @ drop (k + Suc n) pd)"
    by (simp add: bs(2) t)
  finally have "length (b # bs) = Suc n
        \<and> hex_loop v k pd = Inr (take k pd @ (b # bs) @ drop (k + Suc n) pd)
        \<and> hex_encode False (b # bs) = map tolower v"
    using bs(1,3) enc by (simp add: v)
  then show ?case by blast
qed

lemma hex_encode_inj: "hex_encode up a = hex_encode up b \<Longrightarrow> a = b"
proof -
  assume e: "hex_encode up a = hex_encode up b"
  then have "length (hex_encode up a) = length (hex_encode up b)" by simp
  then have l: "length a = length b" by (simp add: length_hex_encode)
  have "hex_loop (hex_encode up a) 0 (replicate (length a) 0) = Inr a"
    using hex_loop_encoded [of 0 a "replicate (length a) 0" up] by simp
  then have "hex_loop (hex_encode up b) 0 (replicate (length a) 0) = Inr a"
    unfolding e .
  moreover have "hex_loop (hex_encode up b) 0 (replicate (length a) 0) = Inr b"
    using hex_loop_encoded [of 0 b "replicate (length a) 0" up] l by simp
  ultimately have "Inr a = (Inr b :: error + byte list)" by (rule trans [OF sym])
  then show "a = b" by (simp only: sum.inject)
qed

lemma hex_encode_digits:
  "c \<in> set (hex_encode up bs) \<Longrightarrow> \<exists>n<16. c = hex_digit up n"
proof (induction bs)
  case Nil
  then show ?case by simp
next
  case (Cons b bs)
  have "unat b < 256" using unsigned_less [of b, where ?'a = nat] by simp
  then have "unat b div 16 < 16" "unat b mod 16 < 16" by simp_all
  moreover from Cons.prems
  have "c = hex_digit up (unat b div 16) \<or> c = hex_digit up (unat b mod 16)
        \<or> c \<in> set (hex_encode up bs)"
    by simp
  ultimately show ?case using Cons.IH by blast
qed

lemma tolower_xdigit:
  assumes "n < 16" and "tolower c = hex_digit False n"
  shows "isxdigit c"
proof -
  have x: "isxdigit (hex_digit False n)" using hex_digit_props(1) [OF assms(1)] .
  show ?thesis
  proof (cases "65 \<le> (of_char c :: nat) \<and> (of_char c :: nat) \<le> 90")
    case True
    then have "tolower c = char_of (of_char c + 32 :: nat)" by (simp add: tolower_def)
    with assms(2) x have "isxdigit (char_of (of_char c + 32 :: nat))" by simp
    moreover from True have "(of_char c + 32 :: nat) mod 256 = of_char c + 32" by simp
    ultimately show ?thesis using True by (simp add: isxdigit_def)
  next
    case False
    then have "tolower c = c" by (auto simp: tolower_def)
    with assms(2) x show ?thesis by simp
  qed
qed

lemma tolower_hex_encode:
  assumes "map tolower v = hex_encode False bs"
  shows "\<forall>c \<in> set v. isxdigit c"
proof
  fix c assume "c \<in> set v"
  then have "tolower c \<in> set (map tolower v)" by simp
  then have "tolower c \<in> set (hex_encode False bs)" using assms by simp
  from hex_encode_digits [OF this] obtain n where "n < 16" "tolower c = hex_digit False n" by blast
  then show "isxdigit c" by (rule tolower_xdigit)
qed

subsection \<open>The hash registry\<close>

declare bsearch.simps [simp del]

lemma bsearch_Some:
  "bsearch key base lo hi = Some e \<Longrightarrow> hi \<le> length base \<Longrightarrow> e \<in> set base \<and> fst e = key"
proof (induction key base lo hi rule: bsearch.induct)
  case (1 key base lo hi)
  show ?case
  proof (cases "lo < hi")
    case False
    with "1.prems" show ?thesis by (simp add: bsearch.simps)
  next
    case True
    then have mid: "(lo + hi) div 2 < hi" by simp
    consider (l) "key < fst (base ! ((lo + hi) div 2))"
      | (r) "\<not> key < fst (base ! ((lo + hi) div 2))" "fst (base ! ((lo + hi) div 2)) < key"
      | (e) "\<not> key < fst (base ! ((lo + hi) div 2))" "\<not> fst (base ! ((lo + hi) div 2)) < key"
      by blast
    then show ?thesis
    proof cases
      case l
      with True "1.prems" have "bsearch key base lo ((lo + hi) div 2) = Some e"
        by (subst (asm) bsearch.simps) simp
      with "1.IH"(1) [OF True l] mid "1.prems"(2) show ?thesis by simp
    next
      case r
      with True "1.prems" have "bsearch key base ((lo + hi) div 2 + 1) hi = Some e"
        by (subst (asm) bsearch.simps) simp
      with "1.IH"(2) [OF True r] "1.prems"(2) show ?thesis by simp
    next
      case e
      with True "1.prems" have "e = base ! ((lo + hi) div 2)"
        by (subst (asm) bsearch.simps) simp
      moreover have "(lo + hi) div 2 < length base" using mid "1.prems"(2) by simp
      ultimately show ?thesis using e by auto
    qed
  qed
qed

lemma bsearch_None:
  "bsearch key base lo hi = None \<Longrightarrow> sorted (map fst base) \<Longrightarrow> hi \<le> length base \<Longrightarrow>
   lo \<le> i \<Longrightarrow> i < hi \<Longrightarrow> fst (base ! i) \<noteq> key"
proof (induction key base lo hi rule: bsearch.induct)
  case (1 key base lo hi)
  from "1.prems" have True: "lo < hi" by simp
  then have mid: "(lo + hi) div 2 < hi" by simp
  have mono: "\<And>a b. a \<le> b \<Longrightarrow> b < length base \<Longrightarrow> fst (base ! a) \<le> fst (base ! b)"
    using "1.prems"(2) sorted_nth_mono [of "map fst base"] by fastforce
  consider (l) "key < fst (base ! ((lo + hi) div 2))"
    | (r) "\<not> key < fst (base ! ((lo + hi) div 2))" "fst (base ! ((lo + hi) div 2)) < key"
    | (e) "\<not> key < fst (base ! ((lo + hi) div 2))" "\<not> fst (base ! ((lo + hi) div 2)) < key"
    by blast
  then show ?case
  proof cases
    case l
    with True "1.prems"(1) have n: "bsearch key base lo ((lo + hi) div 2) = None"
      by (subst (asm) bsearch.simps) simp
    show ?thesis
    proof (cases "i < (lo + hi) div 2")
      case True
      with "1.IH"(1) [OF \<open>lo < hi\<close> l n "1.prems"(2)] mid "1.prems" show ?thesis by simp
    next
      case False
      then have "fst (base ! ((lo + hi) div 2)) \<le> fst (base ! i)"
        using mono [of "(lo + hi) div 2" i] "1.prems" by simp
      with l show ?thesis by auto
    qed
  next
    case r
    with True "1.prems"(1) have n: "bsearch key base ((lo + hi) div 2 + 1) hi = None"
      by (subst (asm) bsearch.simps) simp
    show ?thesis
    proof (cases "(lo + hi) div 2 + 1 \<le> i")
      case True
      with "1.IH"(2) [OF \<open>lo < hi\<close> r n "1.prems"(2)] "1.prems" show ?thesis by simp
    next
      case False
      then have "fst (base ! i) \<le> fst (base ! ((lo + hi) div 2))"
        using mono [of i "(lo + hi) div 2"] mid "1.prems" by simp
      with r show ?thesis by auto
    qed
  next
    case e
    with True "1.prems"(1) show ?thesis
      by (subst (asm) bsearch.simps) simp
  qed
qed

lemma distinct_hashType: "distinct (map fst hashType)"
  by (simp add: hashType_def)

lemma TDNFGetResourceType_eq:
  "TDNFGetResourceType (Some key) =
     (if key = [] then Inl ERROR_TDNF_INVALID_PARAMETER
      else case map_of hashType key of None \<Rightarrow> Inr (- 1) | Some v \<Rightarrow> Inr v)"
proof (cases "key = []")
  case True
  then show ?thesis by (simp add: TDNFGetResourceType_def)
next
  case False
  have len: "length hashType = length (qsort hashType)" by (simp add: qsort_def)
  have srt: "sorted (map fst (qsort hashType))" by (simp add: qsort_def)
  have st: "set (qsort hashType) = set hashType" by (simp add: qsort_def)
  show ?thesis
  proof (cases "bsearch key (qsort hashType) 0 (length hashType)")
    case None
    have "map_of hashType key = None"
    proof (rule ccontr)
      assume "map_of hashType key \<noteq> None"
      then obtain v where "(key, v) \<in> set (qsort hashType)"
        using st by (auto dest: map_of_SomeD)
      then obtain i where "i < length (qsort hashType)" "qsort hashType ! i = (key, v)"
        by (auto simp: in_set_conv_nth)
      with bsearch_None [OF None srt, of i] len show False by simp
    qed
    with None False show ?thesis by (simp add: TDNFGetResourceType_def)
  next
    case (Some e)
    have "e \<in> set (qsort hashType) \<and> fst e = key"
      by (rule bsearch_Some [OF Some]) (simp add: qsort_def)
    then have "(key, snd e) \<in> set hashType"
      unfolding st by (metis prod.collapse)
    then have "map_of hashType key = Some (snd e)"
      using distinct_hashType by (rule_tac map_of_is_SomeI) auto
    with Some False show ?thesis by (simp add: TDNFGetResourceType_def)
  qed
qed

subsection \<open>Verification of a file against the model\<close>

lemma TDNFAllocateMemory_ok:
  "False \<notin> set (heap w) \<Longrightarrow> TDNFAllocateMemory w = (True, w\<lparr>heap := drop 1 (heap w)\<rparr>)"
  by (cases "heap w") (auto simp: TDNFAllocateMemory_def)

lemma hex_loop_length: "hex_loop s k pd = Inr pd' \<Longrightarrow> length pd' = length pd"
  by (induction s k pd arbitrary: pd' rule: hex_loop.induct) (auto split: sum.splits)

lemma TDNFHexToUint_error:
  "TDNFHexToUint x = Inl e \<Longrightarrow> e \<noteq> ERROR_TDNF_CHECKSUM_VALIDATION_FAILED"
  by (auto simp: TDNFHexToUint_def split: option.splits if_splits prod.splits)

lemma hex_loop_error:
  "hex_loop s k pd = Inl e \<Longrightarrow> e \<noteq> ERROR_TDNF_CHECKSUM_VALIDATION_FAILED"
  by (induction s k pd rule: hex_loop.induct)
     (auto split: sum.splits dest: TDNFHexToUint_error)

lemma TDNFChecksumFromHexDigest_ok:
  assumes "s \<noteq> []" and "False \<notin> set (heap w)"
  shows "TDNFChecksumFromHexDigest (Some s) (Some buf) w =
           (case hex_loop s 0 (replicate (length s div 2) 0) of
              Inl e \<Rightarrow> Inl e
            | Inr pd \<Rightarrow> Inr (pd @ drop (length s div 2) buf),
            w\<lparr>heap := drop 1 (heap w)\<rparr>)"
  using assms(1) hex_loop_length [of s 0 "replicate (length s div 2) 0"]
  by (simp add: TDNFChecksumFromHexDigest_def TDNFAllocateMemory_ok [OF assms(2)] split: sum.splits)

lemma read_loop_frame:
  "read_loop (w\<lparr>heap := hp, opened := op\<rparr>) ctx chunks final = read_loop w ctx chunks final"
  by (induction chunks arbitrary: ctx) (auto split: option.splits)

lemma TDNFGetDigestForFile_frame:
  "f \<noteq> [] \<Longrightarrow>
   TDNFGetDigestForFile (Some f) (Some h) (Some b) (w\<lparr>heap := hp, opened := op\<rparr>) =
     (fst (TDNFGetDigestForFile (Some f) (Some h) (Some b) w), w\<lparr>heap := hp, opened := op @ [f]\<rparr>)"
  by (cases "files w f")
     (auto simp: TDNFGetDigestForFile_def read_loop_frame
        cong: option.case_cong sum.case_cong prod.case_cong if_cong)

lemma TDNFCheckHash_frame:
  "f \<noteq> [] \<Longrightarrow> 0 \<le> t \<Longrightarrow> t < 4 \<Longrightarrow>
   TDNFCheckHash (Some f) (Some d) t (w\<lparr>heap := hp, opened := op\<rparr>) =
     (fst (TDNFCheckHash (Some f) (Some d) t w), w\<lparr>heap := hp, opened := op @ [f]\<rparr>)"
  by (simp add: TDNFCheckHash_def IsNullOrEmptyString_def TDNF_HASH_MD5_def
        TDNF_HASH_SENTINEL_def TDNFGetDigestForFile_frame split: sum.splits prod.splits)

lemma TDNFCheckHash_take:
  "take (length' (hash_ops ! nat t)) d = take (length' (hash_ops ! nat t)) d' \<Longrightarrow>
   fst (TDNFCheckHash (Some f) (Some d) t w) = fst (TDNFCheckHash (Some f) (Some d') t w)"
  by (simp add: TDNFCheckHash_def split: sum.splits prod.splits)

lemma TDNFGetResourceType_range: "TDNFGetResourceType x = Inr t \<Longrightarrow> - 1 \<le> t \<and> t < 4"
proof (cases x)
  case None
  then show "TDNFGetResourceType x = Inr t \<Longrightarrow> - 1 \<le> t \<and> t < 4"
    by (simp add: TDNFGetResourceType_def)
next
  case (Some key)
  assume r: "TDNFGetResourceType x = Inr t"
  show "- 1 \<le> t \<and> t < 4"
  proof (cases "map_of hashType key")
    case None
    with r Some show ?thesis by (simp add: TDNFGetResourceType_eq split: if_splits)
  next
    case (Some v)
    then have "(key, v) \<in> set hashType" by (rule map_of_SomeD)
    then have "0 \<le> v \<and> v < 4"
      by (auto simp: hashType_def TDNF_HASH_MD5_def TDNF_HASH_SHA1_def TDNF_HASH_SHA256_def
          TDNF_HASH_SHA512_def)
    with r Some \<open>x = Some key\<close> show ?thesis
      by (simp add: TDNFGetResourceType_eq split: if_splits)
  qed
qed

lemma TDNFCheckHexDigest_Some:
  "TDNFCheckHexDigest v (int n) \<Longrightarrow> \<exists>s. v = Some s \<and> s \<noteq> [] \<and> length s = 2 * n"
  by (cases v)
     (auto simp: TDNFCheckHexDigest_def IsNullOrEmptyString_def hex_scan_eq split: if_splits)

lemma candidate_decode:
  assumes c: "best_candidate best h" and st: "candidate_status (Some f) best h w = r"
    and r: "r = None \<or> r = Some ERROR_TDNF_CHECKSUM_VALIDATION_FAILED"
    and f: "f \<noteq> []" and b: "0 \<le> best" "best < 4"
    and w: "False \<notin> set (heap w)" and hp: "False \<notin> set hp"
  shows "\<exists>d1. TDNFChecksumFromHexDigest (value' h) (Some d) (w\<lparr>heap := hp, opened := op\<rparr>)
                = (Inr d1, w\<lparr>heap := drop 1 hp, opened := op\<rparr>)
            \<and> fst (TDNFCheckHash (Some f) (Some d1) best w) = r"
proof -
  let ?n = "length' (hash_ops ! nat best)"
  from c obtain s where s: "value' h = Some s" "s \<noteq> []" "length s = 2 * ?n"
    using TDNFCheckHexDigest_Some [of "value' h" ?n] by (auto simp: best_candidate_def)
  then have n: "length s div 2 = ?n" by simp
  have w1: "w\<lparr>heap := drop 1 (heap w)\<rparr> = w\<lparr>heap := drop 1 (heap w), opened := opened w\<rparr>"
    by simp
  show ?thesis
  proof (cases "hex_loop s 0 (replicate ?n 0)")
    case (Inl e)
    then have "candidate_status (Some f) best h w = Some e"
      by (simp add: candidate_status_def s TDNFChecksumFromHexDigest_ok [OF s(2) w] n)
    with st r hex_loop_error [OF Inl] show ?thesis by auto
  next
    case (Inr pd)
    then have len: "length pd = ?n" using hex_loop_length [OF Inr] by simp
    have "candidate_status (Some f) best h w
          = fst (TDNFCheckHash (Some f) (Some (pd @ drop ?n (replicate EVP_MAX_MD_SIZE 0))) best
                  (w\<lparr>heap := drop 1 (heap w), opened := opened w\<rparr>))"
      by (simp add: candidate_status_def s TDNFChecksumFromHexDigest_ok [OF s(2) w] n Inr)
    also have "\<dots> = fst (TDNFCheckHash (Some f) (Some (pd @ drop ?n (replicate EVP_MAX_MD_SIZE 0))) best w)"
      by (simp only: TDNFCheckHash_frame [OF f b] fst_conv)
    also have "\<dots> = fst (TDNFCheckHash (Some f) (Some (pd @ drop ?n d)) best w)"
      by (rule TDNFCheckHash_take) (simp add: len)
    finally have m: "fst (TDNFCheckHash (Some f) (Some (pd @ drop ?n d)) best w) = r"
      using st by simp
    have hp': "False \<notin> set (heap (w\<lparr>heap := hp, opened := op\<rparr>))" using hp by simp
    have "TDNFChecksumFromHexDigest (value' h) (Some d) (w\<lparr>heap := hp, opened := op\<rparr>)
          = (Inr (pd @ drop ?n d), w\<lparr>heap := drop 1 hp, opened := op\<rparr>)"
      by (simp add: s TDNFChecksumFromHexDigest_ok [OF s(2) hp'] n Inr)
    with m show ?thesis by blast
  qed
qed

lemma check_loop_match:
  assumes "best_candidate best h" and "candidate_status (Some f) best h w = None"
    and "f \<noteq> []" and "0 \<le> best" "best < 4"
    and "False \<notin> set (heap w)" and "False \<notin> set hp"
  shows "check_loop (Some f) best (h # hs) e d (w\<lparr>heap := hp, opened := op\<rparr>)
         = (None, w\<lparr>heap := drop 1 hp, opened := op @ [f]\<rparr>)"
proof -
  from candidate_decode [OF assms(1,2) _ assms(3-7), of d op]
  obtain d1 where
    d1: "TDNFChecksumFromHexDigest (value' h) (Some d) (w\<lparr>heap := hp, opened := op\<rparr>)
         = (Inr d1, w\<lparr>heap := drop 1 hp, opened := op\<rparr>)"
    and m: "fst (TDNFCheckHash (Some f) (Some d1) best w) = None"
    by auto
  from assms(1) have "TDNFGetResourceType (type' h) = Inr best"
    and "TDNFCheckHexDigest (value' h) (int (length' (hash_ops ! nat best)))"
    by (simp_all add: best_candidate_def)
  then show ?thesis
    by (simp add: d1 TDNFCheckHash_frame [OF assms(3-5)] m)
qed

lemma check_loop_mismatch:
  assumes "best_candidate best h"
    and "candidate_status (Some f) best h w = Some ERROR_TDNF_CHECKSUM_VALIDATION_FAILED"
    and "f \<noteq> []" and "0 \<le> best" "best < 4"
    and "False \<notin> set (heap w)" and "False \<notin> set hp"
  shows "\<exists>d1. check_loop (Some f) best (h # hs) e d (w\<lparr>heap := hp, opened := op\<rparr>)
         = check_loop (Some f) best hs (Some ERROR_TDNF_CHECKSUM_VALIDATION_FAILED) d1
             (w\<lparr>heap := drop 1 hp, opened := op @ [f]\<rparr>)"
proof -
  from candidate_decode [OF assms(1,2) _ assms(3-7), of d op]
  obtain d1 where
    d1: "TDNFChecksumFromHexDigest (value' h) (Some d) (w\<lparr>heap := hp, opened := op\<rparr>)
         = (Inr d1, w\<lparr>heap := drop 1 hp, opened := op\<rparr>)"
    and m: "fst (TDNFCheckHash (Some f) (Some d1) best w)
            = Some ERROR_TDNF_CHECKSUM_VALIDATION_FAILED"
    by auto
  from assms(1) have "TDNFGetResourceType (type' h) = Inr best"
    and "TDNFCheckHexDigest (value' h) (int (length' (hash_ops ! nat best)))"
    by (simp_all add: best_candidate_def)
  then have "check_loop (Some f) best (h # hs) e d (w\<lparr>heap := hp, opened := op\<rparr>)
         = check_loop (Some f) best hs (Some ERROR_TDNF_CHECKSUM_VALIDATION_FAILED) d1
             (w\<lparr>heap := drop 1 hp, opened := op @ [f]\<rparr>)"
    by (simp add: d1 TDNFCheckHash_frame [OF assms(3-5)] m)
  then show ?thesis by blast
qed

lemma check_loop_skip:
  assumes "TDNFGetResourceType (type' h) = Inr t" and "\<not> best_candidate best h"
  shows "check_loop p best (h # hs) e d u = check_loop p best hs None d u"
  using assms by (auto simp: best_candidate_def)

lemma check_loop_prefix:
  assumes "f \<noteq> []" and "0 \<le> best" "best < 4" and "False \<notin> set (heap w)"
    and "\<forall>h \<in> set pre. \<exists>t. TDNFGetResourceType (type' h) = Inr t"
    and "\<forall>h \<in> set pre. best_candidate best h \<longrightarrow>
           candidate_status (Some f) best h w = Some ERROR_TDNF_CHECKSUM_VALIDATION_FAILED"
    and "False \<notin> set hp"
  shows "\<exists>e1 d1. check_loop (Some f) best (pre @ rest) e d (w\<lparr>heap := hp, opened := op\<rparr>)
           = check_loop (Some f) best rest e1 d1
               (w\<lparr>heap := drop (length (filter (best_candidate best) pre)) hp,
                  opened := op @ replicate (length (filter (best_candidate best) pre)) f\<rparr>)"
  using assms(5-7)
proof (induction pre arbitrary: e d hp op)
  case Nil
  then show ?case by auto
next
  case (Cons h pre)
  let ?k = "length (filter (best_candidate best) pre)"
  show ?case
  proof (cases "best_candidate best h")
    case True
    with Cons.prems(2)
    have st: "candidate_status (Some f) best h w = Some ERROR_TDNF_CHECKSUM_VALIDATION_FAILED"
      by simp
    from check_loop_mismatch [OF True st assms(1-4) Cons.prems(3), of "pre @ rest" e d op]
    obtain d1 where
      s1: "check_loop (Some f) best (h # pre @ rest) e d (w\<lparr>heap := hp, opened := op\<rparr>)
           = check_loop (Some f) best (pre @ rest) (Some ERROR_TDNF_CHECKSUM_VALIDATION_FAILED) d1
               (w\<lparr>heap := drop 1 hp, opened := op @ [f]\<rparr>)"
      by blast
    have hp1: "False \<notin> set (drop 1 hp)" using Cons.prems(3) by (auto dest: in_set_dropD)
    from Cons.IH [of "drop 1 hp" "Some ERROR_TDNF_CHECKSUM_VALIDATION_FAILED" d1 "op @ [f]"]
      Cons.prems(1,2) hp1
    obtain e2 d2 where
      s2: "check_loop (Some f) best (pre @ rest) (Some ERROR_TDNF_CHECKSUM_VALIDATION_FAILED) d1
             (w\<lparr>heap := drop 1 hp, opened := op @ [f]\<rparr>)
           = check_loop (Some f) best rest e2 d2
               (w\<lparr>heap := drop ?k (drop 1 hp), opened := (op @ [f]) @ replicate ?k f\<rparr>)"
      by auto
    have "(op @ [f]) @ replicate ?k f = op @ replicate (Suc ?k) f"
      by (simp add: replicate_app_Cons_same)
    with s1 s2 True show ?thesis by (auto simp: add.commute)
  next
    case False
    from Cons.prems(1) obtain t where "TDNFGetResourceType (type' h) = Inr t" by auto
    from check_loop_skip [OF this False]
    have s1: "check_loop (Some f) best (h # pre @ rest) e d (w\<lparr>heap := hp, opened := op\<rparr>)
              = check_loop (Some f) best (pre @ rest) None d (w\<lparr>heap := hp, opened := op\<rparr>)" .
    from Cons.IH [of hp None d op] Cons.prems
    obtain e2 d2 where
      "check_loop (Some f) best (pre @ rest) None d (w\<lparr>heap := hp, opened := op\<rparr>)
       = check_loop (Some f) best rest e2 d2
           (w\<lparr>heap := drop ?k hp, opened := op @ replicate ?k f\<rparr>)"
      by auto
    with s1 False show ?thesis by auto
  qed
qed

lemma best_hash_loop_max:
  assumes "\<forall>h \<in> set hs. \<exists>t. TDNFGetResourceType (type' h) = Inr t \<and> t \<le> best"
    and "t0 \<le> best"
    and "t0 = best \<or> (\<exists>h \<in> set hs. TDNFGetResourceType (type' h) = Inr best)"
  shows "best_hash_loop (map Some hs) t0 = Inr best"
  using assms
proof (induction hs arbitrary: t0)
  case Nil
  then show ?case by simp
next
  case (Cons h hs)
  from Cons.prems(1) obtain t where t: "TDNFGetResourceType (type' h) = Inr t" "t \<le> best"
    by auto
  let ?t1 = "if t0 < t then t else t0"
  have "best_hash_loop (map Some hs) ?t1 = Inr best"
  proof (rule Cons.IH)
    show "\<forall>h \<in> set hs. \<exists>t. TDNFGetResourceType (type' h) = Inr t \<and> t \<le> best"
      using Cons.prems(1) by simp
    show "?t1 \<le> best" using t Cons.prems(2) by simp
    show "?t1 = best \<or> (\<exists>h \<in> set hs. TDNFGetResourceType (type' h) = Inr best)"
      using Cons.prems(2,3) t by auto
  qed
  then show ?case by (simp add: t)
qed

lemma map_filter_id_Some: "List.map_filter id (map Some xs) = xs"
  by (induction xs) (simp_all add: List.map_filter_simps)

lemma replicate_numeral: "replicate (numeral k) x = x # replicate (pred_numeral k) x"
  by (simp add: numeral_eq_Suc)

lemmas registry_simps = TDNFGetResourceType_eq hashType_def TDNF_HASH_MD5_def TDNF_HASH_SHA1_def
  TDNF_HASH_SHA256_def TDNF_HASH_SHA512_def TDNF_HASH_SENTINEL_def

lemmas digest_simps = TDNFChecksumFromHexDigest_def TDNFAllocateMemory_def
  TDNFHexToUint_def strtoul16_def isspace_def isxdigit_def digit_value_def
  TDNFCheckHash_def TDNFGetDigestForFile_def IsNullOrEmptyString_def hash_ops_def
  MD5_DIGEST_LENGTH_def SHA_DIGEST_LENGTH_def SHA256_DIGEST_LENGTH_def SHA512_DIGEST_LENGTH_def
  EVP_MAX_MD_SIZE_def example_world_def toy_final_def replicate_numeral

lemma sha1_good_status:
  "candidate_status (Some ''repomd.xml'') 1 sha1_good example_world = None"
  by (simp add: candidate_status_def sha1_good_def registry_simps digest_simps)

lemma sha256_good_status:
  "candidate_status (Some ''repomd.xml'') 2 sha256_good example_world = None"
  by (simp add: candidate_status_def sha256_good_def registry_simps digest_simps)

lemma sha256_bad_status:
  "candidate_status (Some ''repomd.xml'') 2 sha256_bad example_world
   = Some ERROR_TDNF_CHECKSUM_VALIDATION_FAILED"
  by (simp add: candidate_status_def sha256_bad_def registry_simps digest_simps)

lemma candidates:
  "best_candidate 2 sha256_good" "best_candidate 2 sha256_bad" "\<not> best_candidate 2 sha256_malformed"
  "\<not> best_candidate 2 sha1_good" "best_candidate 1 sha1_good"
  by (simp_all add: best_candidate_def sha256_good_def sha256_bad_def sha256_malformed_def
        sha1_good_def registry_simps TDNFCheckHexDigest_def IsNullOrEmptyString_def hash_ops_def
        isxdigit_def SHA256_DIGEST_LENGTH_def SHA_DIGEST_LENGTH_def)

lemma fold_update_None:
  "fold (\<lambda>buf c. Option.bind c (\<lambda>ctx. EVP_DigestUpdate w ctx buf)) chunks None = None"
  by (induction chunks) simp_all

lemma read_loop_fold:
  assumes "[] \<notin> set chunks"
    and "fold (\<lambda>buf c. Option.bind c (\<lambda>ctx. EVP_DigestUpdate w ctx buf)) chunks (Some ctx0)
         = Some ctx1"
  shows "read_loop w ctx0 chunks final = Inr (ctx1, final)"
  using assms
proof (induction chunks arbitrary: ctx0)
  case Nil
  then show ?case by simp
next
  case (Cons buf chunks)
  show ?case
  proof (cases "EVP_DigestUpdate w ctx0 buf")
    case None
    with Cons.prems(2) show ?thesis by (simp add: fold_update_None)
  next
    case (Some ctx')
    with Cons.prems Cons.IH [of ctx'] show ?thesis by auto
  qed
qed

lemma TDNFGetDigestForFile_digest:
  assumes "f \<noteq> []" and "files w f = Inr (chunks, None)" and "[] \<notin> set chunks"
    and "EVP_get_digestbyname w (hash_type h) = Some md"
    and "EVP_MD_CTX_create w"
    and "EVP_DigestInit_ex w md = Some ctx0"
    and "fold (\<lambda>buf c. Option.bind c (\<lambda>ctx. EVP_DigestUpdate w ctx buf)) chunks (Some ctx0)
         = Some ctx1"
    and "EVP_DigestFinal_ex w ctx1 = Some dg"
  shows "fst (TDNFGetDigestForFile (Some f) (Some h) (Some buf) w) = Inr (dg @ drop (length dg) buf)"
  using assms(1,2,4,5,6,8)
  by (simp add: TDNFGetDigestForFile_def read_loop_fold [OF assms(3,7)])

lemma TDNFCheckHexDigest_xdigit:
  "TDNFCheckHexDigest (Some s) (int n) \<Longrightarrow> \<forall>c \<in> set s. isxdigit c"
  by (auto simp: TDNFCheckHexDigest_def IsNullOrEmptyString_def hex_scan_eq split: if_splits)

lemma hash_ops_length:
  "0 \<le> t \<Longrightarrow> t < 4 \<Longrightarrow>
   0 < length' (hash_ops ! nat t) \<and> length' (hash_ops ! nat t) \<le> EVP_MAX_MD_SIZE"
proof -
  assume "0 \<le> t" "t < 4"
  then have "nat t \<in> {0, 1, 2, 3}" by auto
  then show ?thesis
    unfolding insert_iff empty_iff
    by (elim disjE FalseE)
       (simp_all add: hash_ops_def EVP_MAX_MD_SIZE_def MD5_DIGEST_LENGTH_def SHA_DIGEST_LENGTH_def
          SHA256_DIGEST_LENGTH_def SHA512_DIGEST_LENGTH_def)
qed

text \<open>
  The status of a candidate, in terms of the file and the digest engine: the file is
  read to its end in chunks that are not empty, the engine digests them to \<open>dg\<close>, of
  the length of the algorithm, and the declared text is compared with the hexadecimal
  text of \<open>dg\<close> without regard to the case of the letters.
\<close>

lemma candidate_status_digest:
  assumes "f \<noteq> []" and "0 \<le> best" and "best < 4"
    and "files w f = Inr (chunks, None)" and "[] \<notin> set chunks"
    and "EVP_get_digestbyname w (hash_type (hash_ops ! nat best)) = Some md"
    and "EVP_MD_CTX_create w"
    and "EVP_DigestInit_ex w md = Some ctx0"
    and "fold (\<lambda>buf c. Option.bind c (\<lambda>ctx. EVP_DigestUpdate w ctx buf)) chunks (Some ctx0)
         = Some ctx1"
    and "EVP_DigestFinal_ex w ctx1 = Some dg"
    and "length dg = length' (hash_ops ! nat best)"
    and "False \<notin> set (heap w)"
    and "best_candidate best h" and "value' h = Some v"
  shows "candidate_status (Some f) best h w
         = (if map tolower v = hex_encode False dg then None
            else Some ERROR_TDNF_CHECKSUM_VALIDATION_FAILED)"
proof -
  let ?n = "length' (hash_ops ! nat best)"
  let ?z = "replicate EVP_MAX_MD_SIZE (0 :: byte)"
  from assms(13,14) have hx: "TDNFCheckHexDigest (Some v) (int ?n)"
    by (simp add: best_candidate_def)
  from TDNFCheckHexDigest_Some [OF hx] have v: "v \<noteq> []" "length v = 2 * ?n" by auto
  then have n: "length v div 2 = ?n" by simp
  from hex_loop_valid [OF TDNFCheckHexDigest_xdigit [OF hx] v(2), of 0 "replicate ?n 0"]
  obtain bs where bs: "length bs = ?n" "hex_loop v 0 (replicate ?n 0) = Inr bs"
    "hex_encode False bs = map tolower v"
    by auto
  have dec: "TDNFChecksumFromHexDigest (Some v) (Some ?z) w
             = (Inr (bs @ drop ?n ?z), w\<lparr>heap := drop 1 (heap w)\<rparr>)"
    by (simp add: TDNFChecksumFromHexDigest_ok [OF v(1) assms(12)] n bs(2))
  have w1: "w\<lparr>heap := drop 1 (heap w)\<rparr> = w\<lparr>heap := drop 1 (heap w), opened := opened w\<rparr>"
    by simp
  have gd: "fst (TDNFGetDigestForFile (Some f) (Some (hash_ops ! nat best)) (Some ?z) w)
              = Inr (dg @ drop (length dg) ?z)"
    by (rule TDNFGetDigestForFile_digest [OF assms(1,4-10)])
  have t: "\<not> (best < TDNF_HASH_MD5 \<or> TDNF_HASH_SENTINEL \<le> best)"
    using assms(2,3) by (simp add: TDNF_HASH_MD5_def TDNF_HASH_SENTINEL_def)
  have "fst (TDNFCheckHash (Some f) (Some (bs @ drop ?n ?z)) best w)
        = (if dg = bs then None else Some ERROR_TDNF_CHECKSUM_VALIDATION_FAILED)"
    using gd t assms(1,11) bs(1)
    by (cases "TDNFGetDigestForFile (Some f) (Some (hash_ops ! nat best)) (Some ?z) w")
       (simp add: TDNFCheckHash_def IsNullOrEmptyString_def)
  moreover have "candidate_status (Some f) best h w
        = fst (TDNFCheckHash (Some f) (Some (bs @ drop ?n ?z)) best w)"
    unfolding candidate_status_def assms(14) dec prod.case sum.case
    by (subst w1) (simp only: TDNFCheckHash_frame [OF assms(1,2,3)] fst_conv)
  moreover have "(dg = bs) = (map tolower v = hex_encode False dg)"
    using bs(3) hex_encode_inj [of False dg bs] by auto
  ultimately show ?thesis by simp
qed

lemma match_is_candidate:
  assumes "0 \<le> best" and "best < 4"
    and "TDNFGetResourceType (type' h) = Inr best" and "value' h = Some v"
    and "map tolower v = hex_encode False dg" and "length dg = length' (hash_ops ! nat best)"
  shows "best_candidate best h"
proof -
  have "\<forall>c \<in> set v. isxdigit c" using assms(5) by (rule tolower_hex_encode)
  moreover have "length (map tolower v) = 2 * length dg"
    unfolding assms(5) by (rule length_hex_encode)
  then have "length v = 2 * length' (hash_ops ! nat best)" using assms(6) by simp
  moreover have "0 < length' (hash_ops ! nat best)" using hash_ops_length [OF assms(1,2)] by simp
  ultimately show ?thesis
    using assms(3,4)
    by (auto simp: best_candidate_def TDNFCheckHexDigest_def IsNullOrEmptyString_def hex_scan_eq)
qed

text \<open>
  C3. The file \<open>f\<close> is read to its end in the chunks \<open>chunks\<close> and the digest engine
  makes the digest \<open>dg\<close> of them for the algorithm of the best rank. In a model whose
  declarations all resolve, take a declaration \<open>good\<close> of the best rank whose value is
  the hexadecimal text of \<open>dg\<close> (in any case of the letters), and before it only
  declarations that are no candidates of the best rank or whose value is not that
  text: verification succeeds. It opens the file once for each candidate up to and
  including \<open>good\<close> and never for a declaration behind it.
\<close>

theorem verification_stops_at_first_match:
  assumes "f \<noteq> []"
    and "hashes ctx = map Some (pre @ good # post)"
    and "\<forall>h \<in> set (pre @ good # post). \<exists>t. TDNFGetResourceType (type' h) = Inr t \<and> t \<le> best"
    and "0 \<le> best"
    and "files w f = Inr (chunks, None)" and "[] \<notin> set chunks"
    and "EVP_get_digestbyname w (hash_type (hash_ops ! nat best)) = Some md"
    and "EVP_MD_CTX_create w"
    and "EVP_DigestInit_ex w md = Some ctx0"
    and "fold (\<lambda>buf c. Option.bind c (\<lambda>ctx. EVP_DigestUpdate w ctx buf)) chunks (Some ctx0)
         = Some ctx1"
    and "EVP_DigestFinal_ex w ctx1 = Some dg"
    and "length dg = length' (hash_ops ! nat best)"
    and "TDNFGetResourceType (type' good) = Inr best"
    and "value' good = Some v" and "map tolower v = hex_encode False dg"
    and "\<forall>h \<in> set pre. best_candidate best h \<longrightarrow>
           (\<forall>s. value' h = Some s \<longrightarrow> map tolower s \<noteq> hex_encode False dg)"
    and "False \<notin> set (heap w)"
  shows "TDNFCheckRepoMDFileHashFromMetalink (Some f) (Some ctx) w =
           (None, w\<lparr>heap := drop (Suc (length (filter (best_candidate best) pre))) (heap w),
                    opened := opened w @ replicate (Suc (length (filter (best_candidate best) pre))) f\<rparr>)"
proof -
  let ?k = "length (filter (best_candidate best) pre)"
  have b4: "best < 4" using assms(13) TDNFGetResourceType_range by blast
  note engine = assms(1,4) b4 assms(5-12,17)
  have cand: "best_candidate best good"
    by (rule match_is_candidate [OF assms(4) b4 assms(13,14,15,12)])
  have good: "candidate_status (Some f) best good w = None"
    by (simp add: candidate_status_digest [OF engine cand assms(14)] assms(15))
  have bad: "\<forall>h \<in> set pre. best_candidate best h \<longrightarrow>
               candidate_status (Some f) best h w = Some ERROR_TDNF_CHECKSUM_VALIDATION_FAILED"
  proof (intro ballI impI)
    fix h assume h: "h \<in> set pre" "best_candidate best h"
    then obtain s where s: "value' h = Some s"
      using TDNFCheckHexDigest_Some [of "value' h" "length' (hash_ops ! nat best)"]
      by (auto simp: best_candidate_def)
    with assms(16) h have "map tolower s \<noteq> hex_encode False dg" by blast
    then show "candidate_status (Some f) best h w = Some ERROR_TDNF_CHECKSUM_VALIDATION_FAILED"
      by (simp add: candidate_status_digest [OF engine h(2) s])
  qed
  have sel: "best_hash_loop (hashes ctx) (- 1) = Inr best"
    unfolding assms(2)
    by (rule best_hash_loop_max) (use assms(3,4,13) in auto)
  have res: "\<forall>h \<in> set pre. \<exists>t. TDNFGetResourceType (type' h) = Inr t"
    using assms(3) by auto
  from check_loop_prefix [OF assms(1,4) b4 assms(17) res bad assms(17), of "good # post" None
      "replicate EVP_MAX_MD_SIZE 0" "opened w"]
  obtain e1 d1 where pre:
    "check_loop (Some f) best (pre @ good # post) None (replicate EVP_MAX_MD_SIZE 0) w
     = check_loop (Some f) best (good # post) e1 d1
         (w\<lparr>heap := drop ?k (heap w), opened := opened w @ replicate ?k f\<rparr>)"
    by auto
  have "False \<notin> set (drop ?k (heap w))"
    using assms(17) by (auto dest: in_set_dropD)
  from check_loop_match [OF cand good assms(1,4) b4 assms(17) this, of post e1 d1
      "opened w @ replicate ?k f"]
  have "check_loop (Some f) best (good # post) e1 d1
          (w\<lparr>heap := drop ?k (heap w), opened := opened w @ replicate ?k f\<rparr>)
        = (None, w\<lparr>heap := drop (Suc ?k) (heap w), opened := opened w @ replicate (Suc ?k) f\<rparr>)"
    by (simp add: replicate_append_same del: check_loop.simps)
  with pre have loop:
    "check_loop (Some f) best (pre @ good # post) None (replicate EVP_MAX_MD_SIZE 0) w
     = (None, w\<lparr>heap := drop (Suc ?k) (heap w), opened := opened w @ replicate (Suc ?k) f\<rparr>)"
    by (simp only:)
  have mf: "List.map_filter id (hashes ctx) = pre @ good # post"
    by (simp only: assms(2) map_filter_id_Some)
  have nb: "\<not> best < 0" using assms(4) by simp
  show ?thesis
    by (simp only: TDNFCheckRepoMDFileHashFromMetalink_def IsNullOrEmptyString_def option.case
          assms(1) sel mf loop nb sum.case if_False)
qed

theorem verification_stops_at_first_match_witness:
  "files example_world ''repomd.xml'' = Inr ([[0x30], [0x31]], None)
   \<and> EVP_get_digestbyname example_world (hash_type (hash_ops ! nat 2)) = Some 32
   \<and> EVP_DigestInit_ex example_world 32 = Some [32]
   \<and> fold (\<lambda>buf c. Option.bind c (\<lambda>ctx. EVP_DigestUpdate example_world ctx buf))
        [[0x30], [0x31]] (Some [32]) = Some [32, 0x30, 0x31]
   \<and> EVP_DigestFinal_ex example_world [32, 0x30, 0x31] = Some (replicate 32 0x61)
   \<and> value' sha256_good = Some ''6161616161616161616161616161616161616161616161616161616161616161''
   \<and> hex_encode False (replicate 32 0x61)
       = ''6161616161616161616161616161616161616161616161616161616161616161''
   \<and> value' sha256_bad = Some ''0000000000000000000000000000000000000000000000000000000000000000''
   \<and> best_candidate 2 sha256_bad
   \<and> TDNFCheckRepoMDFileHashFromMetalink (Some ''repomd.xml'')
         (Some (model_of [sha256_bad, sha256_good, sha256_bad, sha1_good])) example_world
       = (None, example_world\<lparr>opened := [''repomd.xml'', ''repomd.xml'']\<rparr>)"
proof -
  have r: "\<forall>h \<in> set ([sha256_bad] @ sha256_good # [sha256_bad, sha1_good]).
             \<exists>t. TDNFGetResourceType (type' h) = Inr t \<and> t \<le> 2"
    by (simp add: sha256_bad_def sha256_good_def sha1_good_def registry_simps)
  have fl: "files example_world ''repomd.xml'' = Inr ([[0x30], [0x31]], None)"
    and ne: "[] \<notin> set [[0x30 :: byte], [0x31]]"
    and md: "EVP_get_digestbyname example_world (hash_type (hash_ops ! nat 2)) = Some 32"
    and cr: "EVP_MD_CTX_create example_world"
    and init: "EVP_DigestInit_ex example_world 32 = Some [32]"
    and upd: "fold (\<lambda>buf c. Option.bind c (\<lambda>ctx. EVP_DigestUpdate example_world ctx buf))
        [[0x30], [0x31]] (Some [32]) = Some [32, 0x30, 0x31]"
    and fin: "EVP_DigestFinal_ex example_world [32, 0x30, 0x31] = Some (replicate 32 0x61)"
    and len: "length (replicate 32 (0x61 :: byte)) = length' (hash_ops ! nat 2)"
    and h: "False \<notin> set (heap example_world)"
    by (simp_all add: example_world_def hash_ops_def toy_final_def SHA256_DIGEST_LENGTH_def)
  have enc: "hex_encode False (replicate 32 0x61)
             = ''6161616161616161616161616161616161616161616161616161616161616161''"
    by (simp add: replicate_numeral hex_digit_def)
  have t: "TDNFGetResourceType (type' sha256_good) = Inr 2"
    by (simp add: sha256_good_def registry_simps)
  have g: "value' sha256_good
           = Some ''6161616161616161616161616161616161616161616161616161616161616161''"
    by (simp add: sha256_good_def)
  have gm: "map tolower ''6161616161616161616161616161616161616161616161616161616161616161''
            = hex_encode False (replicate 32 0x61)"
    unfolding enc by (simp add: tolower_def)
  have b: "value' sha256_bad
           = Some ''0000000000000000000000000000000000000000000000000000000000000000''"
    by (simp add: sha256_bad_def)
  have m: "\<forall>h \<in> set [sha256_bad]. best_candidate 2 h \<longrightarrow>
             (\<forall>s. value' h = Some s \<longrightarrow> map tolower s \<noteq> hex_encode False (replicate 32 0x61))"
    unfolding enc by (simp add: b tolower_def)
  have hs: "hashes (model_of [sha256_bad, sha256_good, sha256_bad, sha1_good])
            = map Some ([sha256_bad] @ sha256_good # [sha256_bad, sha1_good])"
    by (simp add: model_of_def)
  have "TDNFCheckRepoMDFileHashFromMetalink (Some ''repomd.xml'')
         (Some (model_of [sha256_bad, sha256_good, sha256_bad, sha1_good])) example_world
       = (None, example_world\<lparr>opened := [''repomd.xml'', ''repomd.xml'']\<rparr>)"
    using verification_stops_at_first_match [OF _ hs r _ fl ne md cr init upd fin len t g gm m h]
    by (simp add: candidates example_world_def)
  with fl md init upd fin g enc b candidates(2) show ?thesis
    by (intro conjI) assumption+
qed





text \<open>
  C1. The model holds a \<open>sha1\<close> declaration with the digest of the file and a \<open>sha256\<close>
  declaration whose value is no hexadecimal digest. The best type is \<open>sha256\<close>, its
  only declaration is filtered out, the weaker declaration is not tried and no file
  is opened; but the function returns 0, not
  \<open>ERROR_TDNF_CHECKSUM_VALIDATION_FAILED\<close>.
\<close>

theorem malformed_best_rank_returns_success:
  "candidate_status (Some ''repomd.xml'') TDNF_HASH_SHA1 sha1_good example_world = None
   \<and> best_hash_loop (hashes (model_of [sha1_good, sha256_malformed])) (- 1) = Inr TDNF_HASH_SHA256
   \<and> \<not> best_candidate TDNF_HASH_SHA256 sha256_malformed
   \<and> TDNFCheckRepoMDFileHashFromMetalink (Some ''repomd.xml'')
         (Some (model_of [sha1_good, sha256_malformed])) example_world
       = (None, example_world)"
proof -
  have "TDNFCheckRepoMDFileHashFromMetalink (Some ''repomd.xml'')
         (Some (model_of [sha1_good, sha256_malformed])) example_world
       = (None, example_world)"
    by (simp add: TDNFCheckRepoMDFileHashFromMetalink_def IsNullOrEmptyString_def model_of_def
        sha1_good_def sha256_malformed_def registry_simps List.map_filter_simps
        TDNFCheckHexDigest_def hash_ops_def isxdigit_def)
  moreover have "best_hash_loop (hashes (model_of [sha1_good, sha256_malformed])) (- 1)
                 = Inr TDNF_HASH_SHA256"
    by (simp add: model_of_def sha1_good_def sha256_malformed_def registry_simps)
  ultimately show ?thesis
    using sha1_good_status candidates by (simp add: TDNF_HASH_SHA1_def TDNF_HASH_SHA256_def)
qed

text \<open>
  The same return value 0 results when every candidate of the best type has been
  tried and has failed, as soon as a declaration follows the last of them: the next
  iteration overwrites the status of the mismatch.
\<close>

lemma mismatch_then_other_returns_success:
  "TDNFCheckRepoMDFileHashFromMetalink (Some ''repomd.xml'')
     (Some (model_of [sha256_bad, sha256_malformed])) example_world
   = (None, example_world\<lparr>opened := [''repomd.xml'']\<rparr>)
   \<and> TDNFCheckRepoMDFileHashFromMetalink (Some ''repomd.xml'')
     (Some (model_of [sha256_bad])) example_world
   = (Some ERROR_TDNF_CHECKSUM_VALIDATION_FAILED, example_world\<lparr>opened := [''repomd.xml'']\<rparr>)"
  by (simp add: TDNFCheckRepoMDFileHashFromMetalink_def model_of_def
        sha256_bad_def sha256_malformed_def registry_simps List.map_filter_simps
        TDNFCheckHexDigest_def digest_simps)

lemma check_loop_no_candidate:
  assumes "\<forall>h \<in> set hs. \<exists>t. TDNFGetResourceType (type' h) = Inr t"
    and "\<forall>h \<in> set hs. \<not> best_candidate best h"
    and "hs \<noteq> []"
  shows "check_loop p best hs e d u = (None, u)"
  using assms
proof (induction hs arbitrary: e)
  case Nil
  then show ?case by simp
next
  case (Cons h hs)
  from Cons.prems(1) obtain t where t: "TDNFGetResourceType (type' h) = Inr t" by auto
  from Cons.prems(2) have n: "\<not> best_candidate best h" by simp
  have s: "check_loop p best (h # hs) e d u = check_loop p best hs None d u"
    by (rule check_loop_skip [OF t n])
  show ?case
  proof (cases "hs = []")
    case True
    with s show ?thesis by simp
  next
    case False
    with Cons.IH [of None] Cons.prems s show ?thesis by simp
  qed
qed

text \<open>
  The defect behind C1 in general: when the types of all declarations resolve, one of
  them to the supported type \<open>best\<close> and none to a higher one, and no declaration
  passes the filter of the second loop, the function returns 0 and opens no file.
\<close>

lemma no_candidate_returns_success:
  assumes "f \<noteq> []" and "hashes ctx = map Some hs"
    and "\<forall>h \<in> set hs. \<exists>t. TDNFGetResourceType (type' h) = Inr t \<and> t \<le> best"
    and "\<exists>h \<in> set hs. TDNFGetResourceType (type' h) = Inr best" and "0 \<le> best"
    and "\<forall>h \<in> set hs. \<not> best_candidate best h"
  shows "TDNFCheckRepoMDFileHashFromMetalink (Some f) (Some ctx) w = (None, w)"
proof -
  have sel: "best_hash_loop (hashes ctx) (- 1) = Inr best"
    unfolding assms(2) by (rule best_hash_loop_max) (use assms(3,4,5) in auto)
  have ne: "hs \<noteq> []" using assms(4) by auto
  have res: "\<forall>h \<in> set hs. \<exists>t. TDNFGetResourceType (type' h) = Inr t" using assms(3) by auto
  have loop: "check_loop (Some f) best hs None (replicate EVP_MAX_MD_SIZE 0) w = (None, w)"
    by (rule check_loop_no_candidate [OF res assms(6) ne])
  have mf: "List.map_filter id (hashes ctx) = hs"
    by (simp only: assms(2) map_filter_id_Some)
  have nb: "\<not> best < 0" using assms(5) by simp
  show ?thesis
    by (simp only: TDNFCheckRepoMDFileHashFromMetalink_def IsNullOrEmptyString_def option.case
          assms(1) sel mf loop nb sum.case if_False)
qed

subsection \<open>The parser\<close>

lemma TDNFAllocateString_ok:
  "False \<notin> set (heap w) \<Longrightarrow>
   TDNFAllocateString (Some s) w = (Inr s, w\<lparr>heap := drop 1 (heap w)\<rparr>)"
  by (simp add: TDNFAllocateString_def TDNFAllocateMemory_ok)

lemma TDNFAllocateStringN_ok:
  "False \<notin> set (heap w) \<Longrightarrow>
   TDNFAllocateStringN (Some s) len w = (Some (take (nat len) s), w\<lparr>heap := drop 1 (heap w)\<rparr>)"
  by (simp add: TDNFAllocateStringN_def TDNFAllocateMemory_ok)

lemma TDNFAppendList_ok:
  "False \<notin> set (heap w) \<Longrightarrow>
   TDNFAppendList xs (Some x) w = (Inr (xs @ [Some x]), w\<lparr>heap := drop 1 (heap w)\<rparr>)"
  by (simp add: TDNFAppendList_def TDNFAllocateMemory_ok)

lemma heap_drop_ok: "False \<notin> set hp \<Longrightarrow> False \<notin> set (drop k hp)"
  by (auto dest: in_set_dropD)

lemma TDNFParseHashTag_ok:
  assumes "ml_ctx elementInfo = Some ctx"
    and "TDNFSearchTag (attributes elementInfo) ATTR_TYPE = Some name"
    and "False \<notin> set (heap w)"
  shows "TDNFParseHashTag elementInfo (Some v) len w =
           (None,
            elementInfo\<lparr>ml_ctx := Some (ctx\<lparr>hashes := hashes ctx @
               [Some \<lparr>type' = Some name, value' = Some (take (nat len) v)\<rparr>]\<rparr>)\<rparr>,
            w\<lparr>heap := drop 5 (heap w)\<rparr>)"
  using assms
  by (simp add: TDNFParseHashTag_def TDNFAllocateMemory_ok TDNFAllocateString_ok
        TDNFAllocateStringN_ok TDNFAppendList_ok heap_drop_ok eval_nat_numeral)

lemma unsupported_not_candidate:
  "TDNFGetResourceType (type' h) = Inr (- 1) \<Longrightarrow> 0 \<le> best \<Longrightarrow> \<not> best_candidate best h"
  by (simp add: best_candidate_def)

text \<open>
  C9 (as amended). A non-empty name that is not in the table \<open>hashType\<close> resolves to -1
  with the status 0. A hash element with such a type is parsed without error when its
  allocation requests are served: the declaration is appended to the model. It never
  raises the best type of the first loop and the second loop passes it over.
\<close>

theorem unsupported_hash_type_is_kept_and_ignored:
  assumes "name \<noteq> []" and "name \<notin> fst ` set hashType"
    and "ml_ctx elementInfo = Some ctx"
    and "TDNFSearchTag (attributes elementInfo) ATTR_TYPE = Some name"
    and "False \<notin> set (heap w)"
    and "- 1 \<le> t" and "0 \<le> best"
  shows "TDNFGetResourceType (Some name) = Inr (- 1)
       \<and> TDNFParseHashTag elementInfo (Some v) len w =
           (None,
            elementInfo\<lparr>ml_ctx := Some (ctx\<lparr>hashes := hashes ctx @
               [Some \<lparr>type' = Some name, value' = Some (take (nat len) v)\<rparr>]\<rparr>)\<rparr>,
            w\<lparr>heap := drop 5 (heap w)\<rparr>)
       \<and> best_hash_loop (Some \<lparr>type' = Some name, value' = x\<rparr> # hashList) t
           = best_hash_loop hashList t
       \<and> check_loop pszFile best (\<lparr>type' = Some name, value' = x\<rparr> # hs) e d u
           = check_loop pszFile best hs None d u"
proof -
  have "map_of hashType name = None" using assms(2) by (simp add: map_of_eq_None_iff)
  then have r: "TDNFGetResourceType (Some name) = Inr (- 1)"
    using assms(1) by (simp add: TDNFGetResourceType_eq)
  moreover have "best_hash_loop (Some \<lparr>type' = Some name, value' = x\<rparr> # hashList) t
                 = best_hash_loop hashList t"
    using r assms(6) by simp
  moreover have "check_loop pszFile best (\<lparr>type' = Some name, value' = x\<rparr> # hs) e d u
                 = check_loop pszFile best hs None d u"
    using r assms(7) by simp
  ultimately show ?thesis
    using TDNFParseHashTag_ok [OF assms(3,4,5)] by simp
qed

lemmas parser_simps = element_info_def initial_info_def empty_model_def
  ATTR_NAME_def ATTR_PROTOCOL_def ATTR_TYPE_def ATTR_LOCATION_def ATTR_PREFERENCE_def
  TAG_NAME_FILE_def TAG_NAME_SIZE_def TAG_NAME_HASH_def TAG_NAME_URL_def MIN_URL_LENGTH_def
  TDNFAllocateMemory_def TDNFAllocateString_def TDNFAllocateStringN_def TDNFAppendList_def
  example_world_def

theorem unsupported_hash_type_is_kept_and_ignored_witness:
  "''crc32'' \<notin> fst ` set hashType
   \<and> TDNFGetResourceType (Some ''crc32'') = Inr (- 1)
   \<and> TDNFParseHashTag (element_info ''hash'' [(''type'', Some ''crc32'')]) (Some ''cbf43926'') 8
         example_world
       = (None,
          (element_info ''hash'' [(''type'', Some ''crc32'')])
            \<lparr>ml_ctx := Some (empty_model\<lparr>hashes :=
               [Some \<lparr>type' = Some ''crc32'', value' = Some ''cbf43926''\<rparr>]\<rparr>)\<rparr>,
          example_world)"
proof -
  have a: "''crc32'' \<notin> fst ` set hashType" by (simp add: hashType_def)
  have b: "ml_ctx (element_info ''hash'' [(''type'', Some ''crc32'')]) = Some empty_model"
    by (simp add: element_info_def initial_info_def)
  have c: "TDNFSearchTag (attributes (element_info ''hash'' [(''type'', Some ''crc32'')])) ATTR_TYPE
           = Some ''crc32''"
    by (simp add: element_info_def ATTR_TYPE_def)
  have d: "False \<notin> set (heap example_world)" by (simp add: example_world_def)
  show ?thesis
    using unsupported_hash_type_is_kept_and_ignored [OF _ a b c d, of "- 1" 0 "''cbf43926''" 8] a
    by (simp add: empty_model_def example_world_def)
qed

text \<open>
  C9, as the specification states it, fails for the empty name, which is not in the
  table either: the
  registry returns an error for it, not the value -1.
\<close>

theorem empty_name_is_an_error_counterexample:
  "[] \<notin> fst ` set hashType \<and> TDNFGetResourceType (Some []) = Inl ERROR_TDNF_INVALID_PARAMETER"
  by (simp add: hashType_def TDNFGetResourceType_def)

text \<open>
  C10. When \<open>TDNFParseHashTag\<close> or \<open>TDNFParseUrlTag\<close> returns an error, the parse
  context that it leaves is the one it was given: the model, with its lists of hashes
  and urls, is unchanged.
\<close>

theorem handler_error_leaves_model:
  assumes "TDNFParseHashTag elementInfo val len w = (Some e, elementInfo1, w1)
           \<or> TDNFParseUrlTag elementInfo val len w = Some (Some e, elementInfo1, w1)"
  shows "elementInfo1 = elementInfo"
  using assms
proof
  assume "TDNFParseHashTag elementInfo val len w = (Some e, elementInfo1, w1)"
  then show ?thesis
    by (auto simp: TDNFParseHashTag_def split: option.splits prod.splits sum.splits bool.splits)
next
  assume "TDNFParseUrlTag elementInfo val len w = Some (Some e, elementInfo1, w1)"
  then show ?thesis
    by (auto simp: TDNFParseUrlTag_def split: option.splits prod.splits sum.splits bool.splits)
qed

lemmas scan_simps = sscanf_d_def sscanf_ld_def scan_int_def strtol_sat_def int_of_long_def
  isspace_def isdigit_def digit_value_def

theorem handler_error_leaves_model_witness:
  "fst (TDNFParseHashTag (element_info ''hash'' []) (Some ''abc'') 3 example_world)
     = Some ERROR_TDNF_METALINK_PARSER_MISSING_HASH_ATTR
   \<and> fst (snd (TDNFParseHashTag (element_info ''hash'' []) (Some ''abc'') 3 example_world))
     = element_info ''hash'' []
   \<and> fst (TDNFParseHashTag (element_info ''hash'' [(''type'', Some ''md5'')]) None 0 example_world)
     = Some ERROR_TDNF_METALINK_PARSER_MISSING_HASH_CONTENT
   \<and> fst (snd (TDNFParseHashTag (element_info ''hash'' [(''type'', Some ''md5'')]) None 0
        example_world))
     = element_info ''hash'' [(''type'', Some ''md5'')]
   \<and> TDNFParseUrlTag (element_info ''url'' [(''preference'', Some ''101'')])
        (Some ''http://a.b/'') 11 example_world
     = Some (Some ERROR_TDNF_METALINK_PARSER_MISSING_URL_ATTR,
             element_info ''url'' [(''preference'', Some ''101'')], example_world)
   \<and> TDNFParseUrlTag (element_info ''url'' []) (Some ''http://a.b/'') 11
        (example_world\<lparr>heap := [True, True, True, False]\<rparr>)
     = Some (Some ERROR_TDNF_OUT_OF_MEMORY, element_info ''url'' [], example_world)"
proof -
  have 1: "fst (TDNFParseHashTag (element_info ''hash'' []) (Some ''abc'') 3 example_world)
     = Some ERROR_TDNF_METALINK_PARSER_MISSING_HASH_ATTR"
    by (simp add: TDNFParseHashTag_def parser_simps)
  have 2: "fst (TDNFParseHashTag (element_info ''hash'' [(''type'', Some ''md5'')]) None 0 example_world)
     = Some ERROR_TDNF_METALINK_PARSER_MISSING_HASH_CONTENT"
    by (simp add: TDNFParseHashTag_def parser_simps)
  have s: "sscanf_d ''101'' = Some 101" by (simp add: scan_simps)
  have 3: "TDNFParseUrlTag (element_info ''url'' [(''preference'', Some ''101'')])
        (Some ''http://a.b/'') 11 example_world
     = Some (Some ERROR_TDNF_METALINK_PARSER_MISSING_URL_ATTR,
         fst (snd (the (TDNFParseUrlTag (element_info ''url'' [(''preference'', Some ''101'')])
           (Some ''http://a.b/'') 11 example_world))),
         example_world)"
    by (simp add: TDNFParseUrlTag_def url_bail_def parser_simps s)
  have 4: "TDNFParseUrlTag (element_info ''url'' []) (Some ''http://a.b/'') 11
        (example_world\<lparr>heap := [True, True, True, False]\<rparr>)
     = Some (Some ERROR_TDNF_OUT_OF_MEMORY,
         fst (snd (the (TDNFParseUrlTag (element_info ''url'' []) (Some ''http://a.b/'') 11
           (example_world\<lparr>heap := [True, True, True, False]\<rparr>)))),
         example_world)"
    by (simp add: TDNFParseUrlTag_def parser_simps)
  show ?thesis
    using 1 2 3 4
      handler_error_leaves_model [of "element_info ''hash'' []" "Some ''abc''" 3 example_world
        ERROR_TDNF_METALINK_PARSER_MISSING_HASH_ATTR
        "fst (snd (TDNFParseHashTag (element_info ''hash'' []) (Some ''abc'') 3 example_world))"
        "snd (snd (TDNFParseHashTag (element_info ''hash'' []) (Some ''abc'') 3 example_world))"]
      handler_error_leaves_model [of "element_info ''hash'' [(''type'', Some ''md5'')]" None 0
        example_world ERROR_TDNF_METALINK_PARSER_MISSING_HASH_CONTENT
        "fst (snd (TDNFParseHashTag (element_info ''hash'' [(''type'', Some ''md5'')]) None 0
           example_world))"
        "snd (snd (TDNFParseHashTag (element_info ''hash'' [(''type'', Some ''md5'')]) None 0
           example_world))"]
      handler_error_leaves_model [OF disjI2 [OF 3]]
      handler_error_leaves_model [OF disjI2 [OF 4]]
    by (simp add: prod_eq_iff)
qed

lemma ATTR_distinct:
  "ATTR_PREFERENCE \<noteq> ATTR_PROTOCOL" "ATTR_PREFERENCE \<noteq> ATTR_TYPE"
  "ATTR_PREFERENCE \<noteq> ATTR_LOCATION"
  by (simp_all add: ATTR_PREFERENCE_def ATTR_PROTOCOL_def ATTR_TYPE_def ATTR_LOCATION_def)



lemma url_attr_loop_valid:
  assumes "False \<notin> set (heap w)"
    and "\<forall>p. (ATTR_PREFERENCE, Some p) \<in> set attrs \<longrightarrow>
           (\<exists>n. sscanf_d p = Some n \<and> 0 \<le> n \<and> n \<le> 100)"
  shows "\<exists>u1 k. url_attr_loop attrs u val w = Some (Inr u1, w\<lparr>heap := drop k (heap w)\<rparr>)
           \<and> url u1 = url u
           \<and> ((\<forall>p. (ATTR_PREFERENCE, Some p) \<notin> set attrs) \<longrightarrow> preference u1 = preference u)"
  using assms
proof (induction attrs arbitrary: u val w)
  case Nil
  have "w = w\<lparr>heap := drop 0 (heap w)\<rparr>" by simp
  then have "url_attr_loop [] u val w = Some (Inr u, w\<lparr>heap := drop 0 (heap w)\<rparr>)" by simp
  then show ?case by blast
next
  case (Cons a attrs)
  obtain name v where a: "a = (name, v)" by (cases a)
  have valid: "\<forall>p. (ATTR_PREFERENCE, Some p) \<in> set attrs \<longrightarrow>
           (\<exists>n. sscanf_d p = Some n \<and> 0 \<le> n \<and> n \<le> 100)"
    using Cons.prems(2) by simp
  have step: "\<exists>u1 k. url_attr_loop attrs u' val' (w\<lparr>heap := drop j (heap w)\<rparr>)
                 = Some (Inr u1, w\<lparr>heap := drop k (heap w)\<rparr>)
               \<and> url u1 = url u'
               \<and> ((\<forall>p. (ATTR_PREFERENCE, Some p) \<notin> set attrs) \<longrightarrow> preference u1 = preference u')"
    for u' val' j
  proof -
    have "False \<notin> set (heap (w\<lparr>heap := drop j (heap w)\<rparr>))"
      using Cons.prems(1) by (simp add: heap_drop_ok)
    from Cons.IH [OF this valid, of u' val']
    obtain u1 k where
      "url_attr_loop attrs u' val' (w\<lparr>heap := drop j (heap w)\<rparr>)
         = Some (Inr u1, w\<lparr>heap := drop (k + j) (heap w)\<rparr>)"
      "url u1 = url u'"
      "(\<forall>p. (ATTR_PREFERENCE, Some p) \<notin> set attrs) \<longrightarrow> preference u1 = preference u'"
      by auto
    then show ?thesis by blast
  qed
  show ?case
  proof (cases v)
    case None
    from step [of u val 0] show ?thesis by (simp add: a None)
  next
    case (Some s)
    consider (protocol) "name = ATTR_PROTOCOL"
      | (type) "name \<noteq> ATTR_PROTOCOL" "name = ATTR_TYPE"
      | (location) "name \<noteq> ATTR_PROTOCOL" "name \<noteq> ATTR_TYPE" "name = ATTR_LOCATION"
      | (preference) "name = ATTR_PREFERENCE"
      | (other) "name \<noteq> ATTR_PROTOCOL" "name \<noteq> ATTR_TYPE" "name \<noteq> ATTR_LOCATION"
          "name \<noteq> ATTR_PREFERENCE"
      by blast
    then show ?thesis
    proof cases
      case protocol
      from step [of "u\<lparr>protocol := Some s\<rparr>" "Some s" 1] protocol ATTR_distinct show ?thesis
        by (simp add: a Some TDNFAllocateString_ok [OF Cons.prems(1)])
    next
      case type
      from step [of "u\<lparr>url_type := Some s\<rparr>" "Some s" 1] type ATTR_distinct show ?thesis
        by (simp add: a Some TDNFAllocateString_ok [OF Cons.prems(1)])
    next
      case location
      from step [of "u\<lparr>location := Some s\<rparr>" "Some s" 1] location ATTR_distinct show ?thesis
        by (simp add: a Some TDNFAllocateString_ok [OF Cons.prems(1)])
    next
      case preference
      from Cons.prems(2) obtain n where n: "sscanf_d s = Some n" "0 \<le> n" "n \<le> 100"
        by (auto simp: a Some preference)
      from step [of "u\<lparr>preference := n\<rparr>" val 0] preference ATTR_distinct n show ?thesis
        by (simp add: a Some, blast)
    next
      case other
      from step [of u val 0] other show ?thesis by (simp add: a Some)
    qed
  qed
qed

lemma TDNFParseUrlTag_after_attributes:
  assumes "ml_ctx elementInfo = Some ctx" and "False \<notin> set (heap w)"
    and "url_attr_loop (attributes elementInfo)
           \<lparr>protocol = None, url_type = None, location = None, preference = 0, url = None\<rparr>
           None (w\<lparr>heap := drop 1 (heap w)\<rparr>) = Some (r, w\<lparr>heap := drop k (heap w)\<rparr>)"
  shows "TDNFParseUrlTag elementInfo (Some v) len w =
           Some (case r of
              Inl e \<Rightarrow> (Some e, elementInfo, w\<lparr>heap := drop k (heap w)\<rparr>)
            | Inr u \<Rightarrow>
                (None,
                 elementInfo\<lparr>ml_ctx := Some (ctx\<lparr>urls := urls ctx @
                    [Some (u\<lparr>url := Some (take (nat len) v)\<rparr>)]\<rparr>)\<rparr>,
                 w\<lparr>heap := drop (k + 3) (heap w)\<rparr>))"
  using assms
  by (cases r)
     (simp_all add: TDNFParseUrlTag_def TDNFAllocateMemory_ok TDNFAllocateString_ok
        TDNFAllocateStringN_ok TDNFAppendList_ok heap_drop_ok eval_nat_numeral add.commute)

lemma url_attr_loop_valid_at:
  assumes "False \<notin> set (heap w)"
    and "\<forall>p. (ATTR_PREFERENCE, Some p) \<in> set attrs \<longrightarrow>
           (\<exists>n. sscanf_d p = Some n \<and> 0 \<le> n \<and> n \<le> 100)"
  shows "\<exists>u1 k. url_attr_loop attrs u val (w\<lparr>heap := drop j (heap w)\<rparr>)
                  = Some (Inr u1, w\<lparr>heap := drop k (heap w)\<rparr>)
           \<and> url u1 = url u
           \<and> ((\<forall>p. (ATTR_PREFERENCE, Some p) \<notin> set attrs) \<longrightarrow> preference u1 = preference u)"
proof -
  have "False \<notin> set (heap (w\<lparr>heap := drop j (heap w)\<rparr>))"
    using assms(1) by (simp add: heap_drop_ok)
  from url_attr_loop_valid [OF this assms(2), of u val]
  obtain u1 k where
    "url_attr_loop attrs u val (w\<lparr>heap := drop j (heap w)\<rparr>)
       = Some (Inr u1, w\<lparr>heap := drop (k + j) (heap w)\<rparr>)"
    "url u1 = url u"
    "(\<forall>p. (ATTR_PREFERENCE, Some p) \<notin> set attrs) \<longrightarrow> preference u1 = preference u"
    by auto
  then show ?thesis by blast
qed






text \<open>
  An integer that fits the \<^verbatim>\<open>int\<close> is stored as it is; a larger one is not: 2147483748
  is stored as \<open>- 2147483548\<close>, and the \<^verbatim>\<open>size\<close> \<open>2^63\<close> is stored as \<^verbatim>\<open>LONG_MAX\<close>.
\<close>

lemma sscanf_d_int:
  "scan_int s = Some n \<Longrightarrow> - (2 ^ 31) \<le> n \<Longrightarrow> n < 2 ^ 31 \<Longrightarrow> sscanf_d s = Some n"
  by (simp add: sscanf_d_def strtol_sat_def int_of_long_def)

lemma sscanf_overflow:
  "sscanf_d ''2147483748'' = Some (- 2147483548)"
  "sscanf_ld ''9223372036854775808'' = Some 9223372036854775807"
  by (simp_all add: scan_simps)

text \<open>
  After a \<^verbatim>\<open>protocol\<close>, \<^verbatim>\<open>type\<close> or \<^verbatim>\<open>location\<close> attribute with a value, \<^verbatim>\<open>value\<close> points at
  the text of that attribute, and a preference that is rejected takes the handler to
  the cleanup that frees it: the handler does not return.
\<close>

lemma bad_preference_after_protocol_frees_the_attribute:
  "TDNFParseUrlTag
     (element_info ''url'' [(''protocol'', Some ''https''), (''preference'', Some ''101'')])
     (Some ''http://a.b/'') 11 example_world = None"
proof -
  have s: "sscanf_d ''101'' = Some 101" by (simp add: scan_simps)
  then show ?thesis by (simp add: TDNFParseUrlTag_def url_bail_def parser_simps)
qed

lemma TAG_distinct:
  "TAG_NAME_URL \<noteq> TAG_NAME_FILE" "TAG_NAME_URL \<noteq> TAG_NAME_SIZE" "TAG_NAME_URL \<noteq> TAG_NAME_HASH"
  by (simp_all add: TAG_NAME_URL_def TAG_NAME_FILE_def TAG_NAME_SIZE_def TAG_NAME_HASH_def)

text \<open>
  C8 (as amended). Character data of a url element, delivered to \<open>TDNFXmlParseData\<close>
  while no error is latched and the parse context is valid:
  \<^item> with a length of at most 4 it changes nothing: no declaration is appended and no
    error is stored;
  \<^item> with a length of 5 or more it is appended as the url of a new declaration,
    provided every preference attribute of the element holds an integer in 0..100 and
    the allocation requests are served.
\<close>

theorem url_content_threshold:
  assumes "dwError elementInfo = None" and "ml_ctx elementInfo = Some ctx"
    and "filename elementInfo = Some fn" and "fn \<noteq> []"
    and "startElement elementInfo = Some TAG_NAME_URL"
  shows "(len \<le> 4 \<longrightarrow> TDNFXmlParseData elementInfo val len w = Some (elementInfo, w))
       \<and> (4 < len \<and> False \<notin> set (heap w)
            \<and> (\<forall>p. (ATTR_PREFERENCE, Some p) \<in> set (attributes elementInfo) \<longrightarrow>
                   (\<exists>n. sscanf_d p = Some n \<and> 0 \<le> n \<and> n \<le> 100)) \<longrightarrow>
            (\<exists>u w1. TDNFXmlParseData elementInfo (Some v) len w
                      = Some (elementInfo\<lparr>ml_ctx := Some (ctx\<lparr>urls := urls ctx @ [Some u]\<rparr>)\<rparr>, w1)
                    \<and> url u = Some (take (nat len) v)))"
proof (intro conjI impI)
  assume "len \<le> 4"
  then show "TDNFXmlParseData elementInfo val len w = Some (elementInfo, w)"
    using assms TAG_distinct
    by (simp add: TDNFXmlParseData_def IsNullOrEmptyString_def MIN_URL_LENGTH_def)
next
  let ?u0 = "\<lparr>protocol = None, url_type = None, location = None, preference = 0, url = None\<rparr>"
  assume a: "4 < len \<and> False \<notin> set (heap w)
            \<and> (\<forall>p. (ATTR_PREFERENCE, Some p) \<in> set (attributes elementInfo) \<longrightarrow>
                   (\<exists>n. sscanf_d p = Some n \<and> 0 \<le> n \<and> n \<le> 100))"
  then have h: "False \<notin> set (heap w)"
    and valid: "\<forall>p. (ATTR_PREFERENCE, Some p) \<in> set (attributes elementInfo) \<longrightarrow>
                   (\<exists>n. sscanf_d p = Some n \<and> 0 \<le> n \<and> n \<le> 100)"
    by simp_all
  from url_attr_loop_valid_at [OF h valid, of ?u0 None 1]
  obtain u1 k where
    l: "url_attr_loop (attributes elementInfo) ?u0 None (w\<lparr>heap := drop 1 (heap w)\<rparr>)
        = Some (Inr u1, w\<lparr>heap := drop k (heap w)\<rparr>)"
    by blast
  from TDNFParseUrlTag_after_attributes [OF assms(2) h l, of v len]
  have p: "TDNFParseUrlTag elementInfo (Some v) len w
          = Some (None,
             elementInfo\<lparr>ml_ctx := Some (ctx\<lparr>urls := urls ctx @
                [Some (u1\<lparr>url := Some (take (nat len) v)\<rparr>)]\<rparr>)\<rparr>,
             w\<lparr>heap := drop (k + 3) (heap w)\<rparr>)"
    by simp
  have e: "elementInfo\<lparr>ml_ctx := x, dwError := None\<rparr> = elementInfo\<lparr>ml_ctx := x\<rparr>" for x
    using assms(1) by simp
  have "TDNFXmlParseData elementInfo (Some v) len w
        = Some (elementInfo\<lparr>ml_ctx := Some (ctx\<lparr>urls := urls ctx @
                   [Some (u1\<lparr>url := Some (take (nat len) v)\<rparr>)]\<rparr>)\<rparr>,
                w\<lparr>heap := drop (k + 3) (heap w)\<rparr>)"
    using assms TAG_distinct a
    by (simp add: TDNFXmlParseData_def IsNullOrEmptyString_def MIN_URL_LENGTH_def p e)
  moreover have "url (u1\<lparr>url := Some (take (nat len) v)\<rparr>) = Some (take (nat len) v)"
    by simp
  ultimately
  show "\<exists>u w1. TDNFXmlParseData elementInfo (Some v) len w
                = Some (elementInfo\<lparr>ml_ctx := Some (ctx\<lparr>urls := urls ctx @ [Some u]\<rparr>)\<rparr>, w1)
              \<and> url u = Some (take (nat len) v)"
    by blast
qed

theorem url_content_threshold_witness:
  "TDNFXmlParseData (element_info ''url'' [(''preference'', Some ''50'')]) (Some ''abcd'') 4
     example_world
   = Some (element_info ''url'' [(''preference'', Some ''50'')], example_world)
   \<and> TDNFXmlParseData (element_info ''url'' [(''preference'', Some ''50'')]) (Some ''abcde'') 5
     example_world
   = Some ((element_info ''url'' [(''preference'', Some ''50'')])
             \<lparr>ml_ctx := Some (empty_model\<lparr>urls :=
                [Some \<lparr>protocol = None, url_type = None, location = None, preference = 50,
                       url = Some ''abcde''\<rparr>]\<rparr>)\<rparr>,
           example_world)"
proof -
  have s: "sscanf_d ''50'' = Some 50" by (simp add: scan_simps)
  have 1: "dwError (element_info ''url'' [(''preference'', Some ''50'')]) = None"
    and 2: "ml_ctx (element_info ''url'' [(''preference'', Some ''50'')]) = Some empty_model"
    and 3: "filename (element_info ''url'' [(''preference'', Some ''50'')]) = Some ''repomd.xml''"
    and 4: "''repomd.xml'' \<noteq> []"
    and 5: "startElement (element_info ''url'' [(''preference'', Some ''50'')]) = Some TAG_NAME_URL"
    by (simp_all add: element_info_def initial_info_def TAG_NAME_URL_def)
  have long: "TDNFXmlParseData (element_info ''url'' [(''preference'', Some ''50'')]) (Some ''abcde'') 5
     example_world
   = Some ((element_info ''url'' [(''preference'', Some ''50'')])
             \<lparr>ml_ctx := Some (empty_model\<lparr>urls :=
                [Some \<lparr>protocol = None, url_type = None, location = None, preference = 50,
                       url = Some ''abcde''\<rparr>]\<rparr>)\<rparr>,
           example_world)"
    by (simp add: TDNFXmlParseData_def TDNFParseUrlTag_def IsNullOrEmptyString_def parser_simps s)
  show ?thesis
    using url_content_threshold [OF 1 2 3 4 5, of 4 "Some ''abcd''" example_world "''abcd''"]
      url_content_threshold [OF 1 2 3 4 5, of 5 None example_world "''abcde''"] long
    by simp
qed

text \<open>
  C8, as the specification states it, fails for a url element with an invalid
  preference: its content
  of 5 bytes is not retained, and the error of the handler is stored.
\<close>

theorem long_url_with_bad_preference_counterexample:
  "TDNFXmlParseData (element_info ''url'' [(''preference'', Some ''101'')]) (Some ''abcde'') 5
     example_world
   = Some ((element_info ''url'' [(''preference'', Some ''101'')])
             \<lparr>dwError := Some ERROR_TDNF_METALINK_PARSER_MISSING_URL_ATTR\<rparr>,
           example_world)
   \<and> ml_ctx ((element_info ''url'' [(''preference'', Some ''101'')])
             \<lparr>dwError := Some ERROR_TDNF_METALINK_PARSER_MISSING_URL_ATTR\<rparr>)
     = Some empty_model"
proof -
  have s: "sscanf_d ''101'' = Some 101" by (simp add: scan_simps)
  then show ?thesis
    by (simp add: TDNFXmlParseData_def TDNFParseUrlTag_def url_bail_def IsNullOrEmptyString_def
          parser_simps)
qed

lemma TDNFXmlParseData_latched:
  "dwError elementInfo = Some e \<Longrightarrow>
   TDNFXmlParseData elementInfo val len w
   = Some (elementInfo\<lparr>dwError := Some ERROR_TDNF_INVALID_PARAMETER\<rparr>, w)"
  by (simp add: TDNFXmlParseData_def split: option.splits)

text \<open>
  Once an error is latched, no event changes the model or the world, and the parse
  context stays failed.
\<close>

lemma latched_error_freezes_model:
  "dwError elementInfo = Some e \<Longrightarrow>
   \<exists>elementInfo1 e1. handle_events evs (elementInfo, w) = Some (elementInfo1, w)
      \<and> ml_ctx elementInfo1 = ml_ctx elementInfo \<and> dwError elementInfo1 = Some e1"
proof (induction evs arbitrary: elementInfo e)
  case Nil
  then show ?case by simp
next
  case (Cons ev evs)
  show ?case
  proof (cases ev)
    case (StartElement name attrs)
    with Cons.prems Cons.IH [of elementInfo e] show ?thesis
      by (simp add: TDNFXmlParseStartElement_def)
  next
    case (CharacterData val len)
    have "dwError (elementInfo\<lparr>dwError := Some ERROR_TDNF_INVALID_PARAMETER\<rparr>)
          = Some ERROR_TDNF_INVALID_PARAMETER"
      by simp
    from Cons.IH [OF this] CharacterData Cons.prems show ?thesis
      by (simp add: TDNFXmlParseData_latched)
  next
    case (EndElement name)
    have "dwError (elementInfo\<lparr>endElement := Some name\<rparr>) = Some e"
      using Cons.prems by simp
    from Cons.IH [OF this] EndElement show ?thesis
      by (simp add: TDNFXmlParseEndElement_def)
  qed
qed

text \<open>
  C2. The document \<^verbatim>\<open><file name="repomd.xml"><hash>abc</hash>\<close>, a line break and
  \<^verbatim>\<open></file>\<close>: the hash element has no type, so its character data latches
  \<open>ERROR_TDNF_METALINK_PARSER_MISSING_HASH_ATTR\<close>. The line break that follows is
  character data again; \<open>TDNFXmlParseData\<close> finds the latch set and stores
  \<open>ERROR_TDNF_INVALID_PARAMETER\<close> over it, which is what the parse reports. The model
  is not changed.
\<close>

theorem first_error_is_overwritten:
  "map_option (\<lambda>s. dwError (fst s))
     (handle_events
        [StartElement ''file'' [(''name'', Some ''repomd.xml'')], StartElement ''hash'' [],
         CharacterData (Some ''abc'') 3]
        (initial_info, example_world))
   = Some (Some ERROR_TDNF_METALINK_PARSER_MISSING_HASH_ATTR)
   \<and> map_option (\<lambda>s. (parse_status 0 (fst s), ml_ctx (fst s)))
     (handle_events
        [StartElement ''file'' [(''name'', Some ''repomd.xml'')], StartElement ''hash'' [],
         CharacterData (Some ''abc'') 3, EndElement ''hash'', CharacterData (Some [CHR 0x0A]) 1,
         EndElement ''file'']
        (initial_info, example_world))
   = Some (Inr (Some ERROR_TDNF_INVALID_PARAMETER), Some empty_model)"
  by (simp add: TDNFXmlParseStartElement_def TDNFXmlParseEndElement_def TDNFXmlParseData_def
        TDNFParseHashTag_def parse_status_def IsNullOrEmptyString_def parser_simps)

end
